theory Spec2Isabelle
  imports Complex_Main "HOL-Library.Word"
begin

unbundle bit_operations_syntax

section \<open>Machine types shared by the C sources\<close>

type_synonym uint8_t = "8 word"
type_synonym uint16_t = "16 word"
type_synonym uint32_t = "32 word"

text \<open>
  A C \<open>float\<close> is either not-a-number, one of the two infinities, or a finite value.
  Every finite binary32 value is a rational number, so \<open>Fin\<close> ranges over a superset of
  the finite floats. The sources below only compare floats, or compute with integers
  below \<open>2 ^ 16\<close> and divide them by 4, which binary32 does without rounding.
\<close>

datatype c_float = NaN | MInf | Fin rat | PInf

text \<open>IEEE 754 comparison: every comparison with a NaN operand is false.\<close>

fun fle :: "c_float \<Rightarrow> c_float \<Rightarrow> bool" where
  "fle NaN _ = False"
| "fle _ NaN = False"
| "fle MInf _ = True"
| "fle _ PInf = True"
| "fle (Fin a) (Fin b) = (a \<le> b)"
| "fle (Fin a) MInf = False"
| "fle PInf (Fin b) = False"
| "fle PInf MInf = False"

fun flt :: "c_float \<Rightarrow> c_float \<Rightarrow> bool" where
  "flt NaN _ = False"
| "flt _ NaN = False"
| "flt PInf _ = False"
| "flt _ MInf = False"
| "flt (Fin a) (Fin b) = (a < b)"
| "flt MInf _ = True"
| "flt (Fin a) PInf = True"

definition fgt :: "c_float \<Rightarrow> c_float \<Rightarrow> bool" where
  "fgt a b = flt b a"

section \<open>printf conversions used by the DTC formatters\<close>

definition hex_digit :: "nat \<Rightarrow> char" where
  "hex_digit d = ''0123456789ABCDEF'' ! (d mod 16)"

function hexX :: "nat \<Rightarrow> string" where
  "hexX n = (if n < 16 then [hex_digit n] else hexX (n div 16) @ [hex_digit (n mod 16)])"
  by pat_completeness auto
termination
  by (relation "measure id") auto

declare hexX.simps [simp del]

text \<open>\<open>%0wX\<close>: upper-case hexadecimal, padded with zeros to at least \<open>w\<close> characters.\<close>

definition printf_0wX :: "nat \<Rightarrow> nat \<Rightarrow> string" where
  "printf_0wX w n = replicate (w - length (hexX n)) CHR ''0'' @ hexX n"

text \<open>
  \<open>snprintf(buf, size, ...)\<close> stores at most \<open>size - 1\<close> characters and the terminating
  NUL; the string then found in \<open>buf\<close> is the formatted text cut to that length.
\<close>

definition snprintf_buf :: "nat \<Rightarrow> string \<Rightarrow> string" where
  "snprintf_buf n s = take (n - 1) s"

section \<open>Physical-unit conversions\<close>

text \<open>\<open>calculate_rpm\<close> of the core utilities: \<open>((msb * 256.0f) + lsb) / 4.0f\<close>.\<close>

definition calculate_rpm :: "uint8_t \<Rightarrow> uint8_t \<Rightarrow> c_float" where
  "calculate_rpm msb lsb = Fin (((of_nat (unat msb) * 256) + of_nat (unat lsb)) / 4)"

text \<open>
  \<open>(raw_value * 100.0f) / 255.0f\<close>: the quotient is in general not a binary32 value, so
  the rounding of the division is a parameter \<open>rnd\<close> of the model.
\<close>

definition calculate_engine_load :: "(rat \<Rightarrow> rat) \<Rightarrow> uint8_t \<Rightarrow> c_float" where
  "calculate_engine_load rnd raw_value = Fin (rnd ((of_nat (unat raw_value) * 100) / 255))"

definition calculate_coolant_temp :: "uint8_t \<Rightarrow> c_float" where
  "calculate_coolant_temp raw_value = Fin (of_nat (unat raw_value) - 40)"


section \<open>OBD-II requests and responses\<close>

record PID_Request =
  req_mode :: uint8_t
  req_pid :: uint8_t

record PID_Response =
  resp_mode :: uint8_t
  resp_pid :: uint8_t
  resp_data :: "uint8_t list"
  resp_checksum :: uint8_t

text \<open>
  What can go wrong in the C code beyond an error return: a read or write outside an
  array, a division by zero, a read through a null pointer, a non-void function that
  ends without a \<open>return\<close>.
\<close>

datatype fault = OutOfBounds | DivByZero | NullDeref | NoReturnValue

text \<open>
  The request/response engine as the diagnostic functions see it. \<open>send_request\<close> is
  the return code of \<open>obd2_send_request\<close> for a request, \<open>receive_response\<close> the return
  code of \<open>obd2_receive_response\<close> and the response it stores, answering the request
  sent last. \<open>read_msgs\<close> is the outcome of \<open>J2534_ReadMsgs(0, response, &msg_count,
  1000)\<close>: return code, bytes stored in \<open>response\<close> and the value left in \<open>msg_count\<close>.
  \<open>clock\<close> is \<open>time(NULL)\<close>.
\<close>

record transport =
  send_request :: "PID_Request \<Rightarrow> int"
  receive_response :: "PID_Request \<Rightarrow> int \<times> PID_Response"
  read_msgs :: "int \<times> uint8_t list \<times> nat"
  clock :: uint32_t

section \<open>Trouble codes: \<open>diag_read_dtcs\<close>\<close>

text \<open>
  \<open>DTCInfo\<close> of the diagnostics module. \<open>code\<close> is the string held by the
  \<open>char code[5]\<close> field; \<open>status\<close> is \<open>None\<close> when the function leaves the caller's
  byte as it was. The \<open>description\<close> field is never written and is left out.
\<close>

record DTCInfo =
  code :: string
  raw_code :: uint16_t
  status :: "uint8_t option"
  timestamp :: uint32_t

text \<open>The three tests on \<open>raw_code & 0xC000\<close>, in the order of the source.\<close>

definition dtc_type :: "uint16_t \<Rightarrow> char" where
  "dtc_type raw =
     (let t0 = CHR ''P'';
          t1 = (if raw AND 0xC000 = 0x4000 then CHR ''C'' else t0);
          t2 = (if raw AND 0xC000 = 0x8000 then CHR ''B'' else t1);
          t3 = (if raw AND 0xC000 = 0xC000 then CHR ''U'' else t2)
      in t3)"

text \<open>
  \<open>snprintf(dtc->code, sizeof(dtc->code), "%c%04X", type, raw_code & 0x3FFF)\<close> with
  \<open>sizeof(dtc->code) = 5\<close>.
\<close>

definition diag_format_code :: "uint16_t \<Rightarrow> string" where
  "diag_format_code raw = snprintf_buf 5 (dtc_type raw # printf_0wX 4 (unat (raw AND 0x3FFF)))"

definition diag_dtc_status :: "transport \<Rightarrow> uint16_t \<Rightarrow> uint8_t option" where
  "diag_dtc_status t raw =
     (let req = \<lparr>req_mode = 0x07, req_pid = ucast (raw AND 0xFF)\<rparr>
      in if send_request t req = 0 then
           (case receive_response t req of (rc, resp) \<Rightarrow>
              if rc = 0 then
                (case resp_data resp of [] \<Rightarrow> None | b # _ \<Rightarrow> Some b)
              else None)
         else None)"

definition diag_make_entry :: "transport \<Rightarrow> uint16_t \<Rightarrow> DTCInfo" where
  "diag_make_entry t raw =
     \<lparr>code = diag_format_code raw, raw_code = raw,
      status = diag_dtc_status t raw, timestamp = clock t\<rparr>"

text \<open>
  The parse loop \<open>for (i = 0; i < msg_count; i += 2)\<close>. \<open>response\<close> holds the bytes the
  adapter stored; reading past them is a fault of the model.
\<close>

function diag_parse ::
  "transport \<Rightarrow> uint8_t list \<Rightarrow> nat \<Rightarrow> nat \<Rightarrow> DTCInfo list \<Rightarrow> fault + DTCInfo list" where
  "diag_parse t response msg_count i dtcs =
     (if i < msg_count then
        (if i + 1 < length response then
           (let raw = (push_bit 8 (ucast (response ! i)) OR ucast (response ! (i + 1))) :: uint16_t
            in if raw = 0 then diag_parse t response msg_count (i + 2) dtcs
               else diag_parse t response msg_count (i + 2) (dtcs @ [diag_make_entry t raw]))
         else Inl OutOfBounds)
      else Inr dtcs)"
  by pat_completeness auto
termination
  by (relation "measure (\<lambda>(t, response, msg_count, i, dtcs). msg_count - i)") auto

declare diag_parse.simps [simp del]

text \<open>Result: the return code and, on success, the entries stored and \<open>*count\<close>.\<close>

definition diag_read_dtcs :: "transport \<Rightarrow> fault + (int \<times> DTCInfo list)" where
  "diag_read_dtcs t =
     (if send_request t \<lparr>req_mode = 0x03, req_pid = 0x00\<rparr> \<noteq> 0 then Inr (-1, [])
      else case read_msgs t of (rc, response, msg_count) \<Rightarrow>
        if rc \<noteq> 0 then Inr (-1, [])
        else (case diag_parse t response msg_count 0 [] of
                Inl f \<Rightarrow> Inl f
              | Inr dtcs \<Rightarrow> Inr (0, dtcs)))"

section \<open>Trouble codes: \<open>format_dtc\<close> of the real-time monitor\<close>

text \<open>\<open>sprintf(dtc, "%s%02X%02X", prefix[type], data[0] & 0x3F, data[1])\<close>.\<close>

definition dtc_prefix :: "uint8_t \<Rightarrow> string" where
  "dtc_prefix ty = [''P'', ''C'', ''B'', ''U''] ! unat (ty AND 0x03)"

definition format_dtc :: "uint8_t \<Rightarrow> uint8_t \<Rightarrow> string" where
  "format_dtc d0 d1 =
     (let ty = drop_bit 6 d0 AND 0x03
      in dtc_prefix ty @ printf_0wX 2 (unat (d0 AND 0x3F)) @ printf_0wX 2 (unat d1))"

section \<open>Trouble codes: \<open>dtc_read_current\<close> of the DTC handler\<close>

record DTCDetails =
  description :: string
  severity :: uint8_t
  system :: string

record DTCEntry =
  entry_code :: string
  details :: DTCDetails

text \<open>
  The loaded database: \<open>None\<close> while \<open>dtc_database\<close> is null, else its rows (code and
  details). \<open>dtc_get_info\<close> returns the first row whose code compares equal, with the
  two strings cut by \<open>strncpy\<close> to the size of their fields less one.
\<close>

fun dtc_get_info :: "(string \<times> DTCDetails) list option \<Rightarrow> string \<Rightarrow> DTCDetails option" where
  "dtc_get_info None c = None"
| "dtc_get_info (Some []) c = None"
| "dtc_get_info (Some ((k, d) # rows)) c =
     (if k = c
      then Some \<lparr>description = take 255 (description d), severity = severity d,
                 system = take 63 (system d)\<rparr>
      else dtc_get_info (Some rows) c)"

text \<open>
  The device interface of the handler: \<open>read_pid mode pid\<close> gives the return code, the
  bytes stored in the buffer and the length stored; \<open>write_pid mode pid data\<close> gives the
  return code. Neither member is declared in the repository's \<open>DeviceInterface\<close>, so
  both are parameters here.
\<close>

record DeviceInterface =
  read_pid :: "uint8_t \<Rightarrow> uint8_t \<Rightarrow> int \<times> uint8_t list \<times> nat"
  write_pid :: "uint8_t \<Rightarrow> uint8_t \<Rightarrow> uint8_t list \<Rightarrow> int"

definition MAX_DTC_COUNT :: nat where
  "MAX_DTC_COUNT = 20"

definition dtc_make_entry ::
  "(string \<times> DTCDetails) list option \<Rightarrow> uint8_t \<Rightarrow> uint8_t \<Rightarrow> DTCEntry" where
  "dtc_make_entry db b0 b1 =
     (let ty = drop_bit 6 b0 AND 0x03;
          c = (''PCBU'' ! unat ty) # printf_0wX 2 (unat (b0 AND 0x3F)) @ printf_0wX 2 (unat b1)
      in \<lparr>entry_code = c,
          details = (case dtc_get_info db c of
                       Some d \<Rightarrow> d
                     | None \<Rightarrow> \<lparr>description = ''Unknown DTC'', severity = 3,
                                 system = ''Unknown''\<rparr>)\<rparr>)"

function dtc_parse ::
  "(string \<times> DTCDetails) list option \<Rightarrow> uint8_t list \<Rightarrow> nat \<Rightarrow> nat \<Rightarrow> DTCEntry list
     \<Rightarrow> fault + DTCEntry list" where
  "dtc_parse db buffer len i entries =
     (if i < len \<and> length entries < MAX_DTC_COUNT then
        (if i + 1 < length buffer then
           dtc_parse db buffer len (i + 2)
             (entries @ [dtc_make_entry db (buffer ! i) (buffer ! (i + 1))])
         else Inl OutOfBounds)
      else Inr entries)"
  by pat_completeness auto
termination
  by (relation "measure (\<lambda>(db, buffer, len, i, entries). len - i)") auto

declare dtc_parse.simps [simp del]

definition dtc_read_current ::
  "(string \<times> DTCDetails) list option \<Rightarrow> DeviceInterface option \<Rightarrow> fault + (int \<times> DTCEntry list)" where
  "dtc_read_current db device =
     (case device of
        None \<Rightarrow> Inr (-1, [])
      | Some dev \<Rightarrow>
          (case read_pid dev 0x03 0x00 of (rc, buffer, len) \<Rightarrow>
             if rc \<noteq> 0 then Inr (-1, [])
             else (case dtc_parse db buffer len 0 [] of
                     Inl f \<Rightarrow> Inl f
                   | Inr entries \<Rightarrow> Inr (0, entries))))"


section \<open>Live data and freeze frames\<close>

text \<open>
  \<open>process_pid_data\<close> of the real-time monitor. \<open>data\<close> is the buffer filled by
  \<open>read_pid\<close>. The RPM case computes \<open>data[0] * 256 + data[1]\<close> in \<open>int\<close>, converts the
  sum to \<open>float\<close> and divides by 4.
\<close>

definition byte_at :: "uint8_t list \<Rightarrow> nat \<Rightarrow> fault + rat" where
  "byte_at data i = (if i < length data then Inr (of_nat (unat (data ! i))) else Inl OutOfBounds)"

definition process_pid_data :: "(rat \<Rightarrow> rat) \<Rightarrow> uint8_t \<Rightarrow> uint8_t list \<Rightarrow> fault + c_float" where
  "process_pid_data rnd pid data =
     (case byte_at data 0 of
        Inl f \<Rightarrow> Inl f
      | Inr d0 \<Rightarrow>
          if pid = 0x04 then Inr (Fin (rnd (d0 * 100 / 255)))
          else if pid = 0x05 then Inr (Fin (d0 - 40))
          else if pid = 0x0C then
            (case byte_at data 1 of
               Inl f \<Rightarrow> Inl f
             | Inr d1 \<Rightarrow> Inr (Fin ((d0 * 256 + d1) / 4)))
          else if pid = 0x0D then Inr (Fin d0)
          else if pid = 0x0F then Inr (Fin (d0 - 40))
          else if pid = 0x11 then Inr (Fin (rnd (d0 * 100 / 255)))
          else Inr (Fin d0))"

record FreezeFrame =
  ff_dtc :: uint16_t
  ff_pid :: uint8_t
  ff_data :: "uint8_t list"
  ff_value :: c_float

text \<open>
  One record of \<open>diag_read_freeze_frame\<close>: the PID byte, the three bytes copied after
  it, and the value chosen by the \<open>switch\<close> on the PID.
\<close>

definition freeze_frame_value :: "(rat \<Rightarrow> rat) \<Rightarrow> uint8_t \<Rightarrow> uint8_t list \<Rightarrow> c_float" where
  "freeze_frame_value rnd pid d =
     (if pid = 0x04 then calculate_engine_load rnd (d ! 0)
      else if pid = 0x05 then calculate_coolant_temp (d ! 0)
      else if pid = 0x0C then calculate_rpm (d ! 0) (d ! 1)
      else Fin 0)"

function freeze_frame_parse ::
  "(rat \<Rightarrow> rat) \<Rightarrow> uint16_t \<Rightarrow> uint8_t list \<Rightarrow> nat \<Rightarrow> nat \<Rightarrow> FreezeFrame list
     \<Rightarrow> fault + FreezeFrame list" where
  "freeze_frame_parse rnd dtc response msg_count i frames =
     (if i < msg_count then
        (if i + 3 < length response then
           (let pid = response ! i;
                d = take 3 (drop (i + 1) response)
            in freeze_frame_parse rnd dtc response msg_count (i + 4)
                 (frames @ [\<lparr>ff_dtc = dtc, ff_pid = pid, ff_data = d,
                              ff_value = freeze_frame_value rnd pid d\<rparr>]))
         else Inl OutOfBounds)
      else Inr frames)"
  by pat_completeness auto
termination
  by (relation "measure (\<lambda>(rnd, dtc, response, msg_count, i, frames). msg_count - i)") auto

declare freeze_frame_parse.simps [simp del]

definition diag_read_freeze_frame ::
  "(rat \<Rightarrow> rat) \<Rightarrow> transport \<Rightarrow> uint16_t \<Rightarrow> fault + (int \<times> FreezeFrame list)" where
  "diag_read_freeze_frame rnd t dtc =
     (if send_request t \<lparr>req_mode = 0x02, req_pid = 0x00\<rparr> \<noteq> 0 then Inr (-1, [])
      else case read_msgs t of (rc, response, msg_count) \<Rightarrow>
        if rc \<noteq> 0 then Inr (-1, [])
        else (case freeze_frame_parse rnd dtc response msg_count 0 [] of
                Inl f \<Rightarrow> Inl f
              | Inr frames \<Rightarrow> Inr (0, frames)))"

section \<open>Clearing trouble codes\<close>

text \<open>\<open>diag_clear_dtcs\<close>: one Mode 04 request, then the confirmation is read.\<close>

definition diag_clear_dtcs :: "transport \<Rightarrow> int" where
  "diag_clear_dtcs t =
     (let req = \<lparr>req_mode = 0x04, req_pid = 0x00\<rparr>
      in if send_request t req \<noteq> 0 then -1
         else (case receive_response t req of (rc, resp) \<Rightarrow>
                 if rc \<noteq> 0 then -1
                 else if resp_data resp ! 0 = 0x44 then 0 else -1))"

text \<open>\<open>dtc_clear_all\<close> of the DTC handler: the request is written, nothing is read.\<close>

definition dtc_clear_all :: "DeviceInterface option \<Rightarrow> int" where
  "dtc_clear_all device =
     (case device of
        None \<Rightarrow> -1
      | Some dev \<Rightarrow> if write_pid dev 0x04 0x00 [0] \<noteq> 0 then -1 else 0)"


section \<open>The J2534 interface\<close>

text \<open>
  State of the interface module: whether \<open>j2534_handle\<close> is set, and
  \<open>current_channel\<close>. \<open>open_channels\<close> is not a variable of the program: it records
  which channels the PassThru library holds open, where a successful
  \<open>PassThruConnect\<close> opens the channel it returns, a successful \<open>PassThruDisconnect\<close>
  closes the channel it is given, and a failed call changes nothing.
\<close>

record j2534 =
  j2534_handle :: bool
  current_channel :: uint32_t
  open_channels :: "uint32_t set"

definition J2534_STATUS_NOERROR :: int where
  "J2534_STATUS_NOERROR = 0"

definition J2534_ERR_TIMEOUT :: int where
  "J2534_ERR_TIMEOUT = 5"

definition J2534_PROTOCOL_CAN :: uint32_t where
  "J2534_PROTOCOL_CAN = 5"

text \<open>
  \<open>J2534_Initialize\<close>: \<open>lib_ok\<close> says that the library and its nine entry points were
  found, \<open>open_rc\<close> is the result of \<open>PassThruOpen\<close>.
\<close>

definition J2534_Initialize :: "bool \<Rightarrow> int \<Rightarrow> j2534 \<Rightarrow> int \<times> j2534" where
  "J2534_Initialize lib_ok open_rc s =
     (if lib_ok then
        (if open_rc \<noteq> J2534_STATUS_NOERROR then (-1, s\<lparr>j2534_handle := False\<rparr>)
         else (0, s\<lparr>j2534_handle := True\<rparr>))
      else (-1, s\<lparr>j2534_handle := False\<rparr>))"

text \<open>\<open>J2534_Disconnect\<close>: \<open>pt_rc\<close> is the result of \<open>PassThruDisconnect(ChannelID)\<close>.\<close>

definition J2534_Disconnect :: "int \<Rightarrow> uint32_t \<Rightarrow> j2534 \<Rightarrow> int \<times> j2534" where
  "J2534_Disconnect pt_rc ChannelID s =
     (if j2534_handle s then
        (if pt_rc \<noteq> J2534_STATUS_NOERROR then (-1, s)
         else (0, s\<lparr>current_channel := (if ChannelID = current_channel s then 0
                                           else current_channel s),
                     open_channels := open_channels s - {ChannelID}\<rparr>))
      else (-1, s))"

text \<open>
  \<open>J2534_Connect\<close>: \<open>disc_rc\<close> is the result the library gives to the disconnect of
  the current channel, if that call is made; \<open>conn\<close> is the result of \<open>PassThruConnect\<close>
  and the channel id it stores. The return value of \<open>J2534_Disconnect\<close> is not looked
  at.
\<close>

definition J2534_Connect :: "int \<Rightarrow> int \<times> uint32_t \<Rightarrow> j2534 \<Rightarrow> int \<times> j2534" where
  "J2534_Connect disc_rc conn s =
     (if j2534_handle s then
        (let s1 = (if current_channel s \<noteq> 0
                   then snd (J2534_Disconnect disc_rc (current_channel s) s) else s)
         in case conn of (result, channel_id) \<Rightarrow>
              if result \<noteq> J2534_STATUS_NOERROR then (-1, s1)
              else (0, s1\<lparr>current_channel := channel_id,
                           open_channels := insert channel_id (open_channels s1)\<rparr>))
      else (-1, s))"

text \<open>A run of the interface: each call with the results the library gives to it.\<close>

datatype j2534_call =
  Connect int "int \<times> uint32_t"
| Disconnect int uint32_t

fun j2534_step :: "j2534 \<Rightarrow> j2534_call \<Rightarrow> j2534" where
  "j2534_step s (Connect disc_rc conn) = snd (J2534_Connect disc_rc conn s)"
| "j2534_step s (Disconnect pt_rc ch) = snd (J2534_Disconnect pt_rc ch s)"

definition j2534_run :: "j2534 \<Rightarrow> j2534_call list \<Rightarrow> j2534" where
  "j2534_run s calls = foldl j2534_step s calls"

definition j2534_initial :: j2534 where
  "j2534_initial = \<lparr>j2534_handle = True, current_channel = 0, open_channels = {}\<rparr>"

text \<open>
  A well-behaved call: the disconnect issued inside a connect succeeds, and the library
  never hands out 0 as a channel id (0 is the module's mark for "no channel").
\<close>

fun well_behaved :: "j2534_call \<Rightarrow> bool" where
  "well_behaved (Connect disc_rc (result, channel_id)) =
     (disc_rc = J2534_STATUS_NOERROR \<and> channel_id \<noteq> 0)"
| "well_behaved (Disconnect pt_rc ch) = True"

definition single_channel :: "j2534 \<Rightarrow> bool" where
  "single_channel s =
     (open_channels s = (if current_channel s = 0 then {} else {current_channel s}))"

section \<open>Protocol negotiation\<close>

record obd_state =
  initialized :: uint8_t
  protocol :: uint8_t
  baudrate :: uint32_t
  flags :: uint32_t
  error_count :: int
  retry_count :: uint8_t

text \<open>
  The adapter behind the interface: what \<open>J2534_Initialize\<close> finds, and the results of
  \<open>PassThruConnect\<close> (by protocol, flags and baud rate) and \<open>PassThruDisconnect\<close> (by
  channel).
\<close>

record adapter =
  lib_ok :: bool
  pt_open :: int
  pt_connect :: "uint32_t \<Rightarrow> uint32_t \<Rightarrow> uint32_t \<Rightarrow> int \<times> uint32_t"
  pt_disconnect :: "uint32_t \<Rightarrow> int"

text \<open>
  The retry loop of \<open>obd2_send_request\<close>, \<open>while (retries--)\<close>. In the source the loop
  body runs to the \<open>return 0\<close> after the \<open>switch\<close>, so a connect that succeeds ends the
  function; when every connect fails the loop ends and the function reaches its end
  without returning a value (\<open>None\<close>).
\<close>

fun send_retry :: "adapter \<Rightarrow> obd_state \<Rightarrow> nat \<Rightarrow> j2534 \<Rightarrow> int option \<times> j2534" where
  "send_retry a st 0 j = (None, j)"
| "send_retry a st (Suc retries) j =
     (case J2534_Connect (pt_disconnect a (current_channel j))
             (pt_connect a (ucast (protocol st)) (flags st) (baudrate st)) j of
        (rc, j') \<Rightarrow>
          if rc \<noteq> 0 then send_retry a st retries j'
          else if protocol st = 6 then (Some 0, j')
          else if protocol st = 3 then (Some 0, j')
          else (Some (-1), j'))"

definition obd2_send_request :: "adapter \<Rightarrow> obd_state \<Rightarrow> PID_Request \<Rightarrow> j2534 \<Rightarrow> int option \<times> j2534" where
  "obd2_send_request a st req j =
     (if initialized st = 0 then (Some (-1), j)
      else send_retry a st (unat (retry_count st)) j)"

text \<open>
  \<open>obd2_receive_response\<close> of the same file stores a fixed reply; \<open>resp\<close> is what the
  caller's structure held before (its checksum byte is kept).
\<close>

definition obd2_receive_response :: "obd_state \<Rightarrow> PID_Response \<Rightarrow> int \<times> PID_Response" where
  "obd2_receive_response st resp =
     (if initialized st = 0 then (-1, resp)
      else (0, resp\<lparr>resp_mode := 0x41, resp_pid := 0x0C, resp_data := [0x20, 0x00, 0x00, 0x00]\<rparr>))"

definition obd_state_zero :: obd_state where
  "obd_state_zero =
     \<lparr>initialized = 0, protocol = 0, baudrate = 0, flags = 0, error_count = 0, retry_count = 0\<rparr>"

definition obd2_protocol_init ::
  "adapter \<Rightarrow> obd_state \<Rightarrow> j2534 \<Rightarrow> fault + (int \<times> obd_state \<times> j2534)" where
  "obd2_protocol_init a st j =
     (case J2534_Initialize (lib_ok a) (pt_open a) j of (rc0, j0) \<Rightarrow>
        if rc0 \<noteq> 0 then Inr (-1, st, j0)
        else
          (let st1 = obd_state_zero\<lparr>retry_count := 3\<rparr>;
               st2 = st1\<lparr>protocol := ucast J2534_PROTOCOL_CAN, baudrate := 500000, flags := 0\<rparr>;
               req = \<lparr>req_mode = 0x01, req_pid = 0x00\<rparr>
           in case obd2_send_request a st2 req j0 of
                (None, j1) \<Rightarrow> Inl NoReturnValue
              | (Some rc1, j1) \<Rightarrow>
                  if rc1 = 0 then Inr (0, st2\<lparr>initialized := 1\<rparr>, j1)
                  else
                    (let st3 = st2\<lparr>protocol := 3, baudrate := 10400\<rparr>
                     in case obd2_send_request a st3 req j1 of
                          (None, j2) \<Rightarrow> Inl NoReturnValue
                        | (Some rc2, j2) \<Rightarrow>
                            if rc2 = 0 then Inr (0, st3\<lparr>initialized := 1\<rparr>, j2)
                            else Inr (-1, st3, j2))))"

section \<open>Checksum and the KWP2000 receive path\<close>

text \<open>\<open>calculate_checksum\<close>: a \<open>uint8_t\<close> accumulator over the first \<open>length\<close> bytes.\<close>

fun checksum_loop :: "uint8_t list \<Rightarrow> uint8_t \<Rightarrow> uint8_t" where
  "checksum_loop [] s = s"
| "checksum_loop (b # bs) s = checksum_loop bs (s + b)"

definition calculate_checksum :: "uint8_t list \<Rightarrow> nat \<Rightarrow> fault + uint8_t" where
  "calculate_checksum data len =
     (if len \<le> length data then Inr (checksum_loop (take len data) 0) else Inl OutOfBounds)"

text \<open>
  The ISO 9141-2 request built by \<open>obd2_send_request\<close>: three header bytes, mode, PID
  and the checksum of these five.
\<close>

definition iso9141_request :: "PID_Request \<Rightarrow> fault + uint8_t list" where
  "iso9141_request req =
     (let buffer = [0x68, 0x6A, 0xF1, req_mode req, req_pid req]
      in case calculate_checksum buffer 5 of
           Inl f \<Rightarrow> Inl f
         | Inr c \<Rightarrow> Inr (buffer @ [c]))"

definition KWP_MAX_LENGTH :: nat where
  "KWP_MAX_LENGTH = 255"

text \<open>
  \<open>kwp_receive_response\<close>. The argument is the outcome of \<open>J2534_ReadMsgs\<close>: return
  code, the 255 bytes of \<open>buffer\<close> after the call, and \<open>msg_count\<close>. The result is the
  return code and the bytes copied to \<open>data\<close> (\<open>*length\<close> is their number);
  \<open>msg_count - 1\<close> is computed in \<open>uint32_t\<close>.
\<close>

definition kwp_receive_response :: "int \<times> uint8_t list \<times> uint32_t \<Rightarrow> fault + (int \<times> uint8_t list)" where
  "kwp_receive_response rd =
     (case rd of (rc, buffer, msg_count) \<Rightarrow>
        if rc \<noteq> 0 then Inr (-1, [])
        else if length buffer \<noteq> KWP_MAX_LENGTH then Inl OutOfBounds
        else if buffer ! 0 \<noteq> (0x40 OR buffer ! 0) then Inr (-1, [])
        else (let len = unat (msg_count - 1)
              in if 1 + len \<le> KWP_MAX_LENGTH then Inr (0, take len (drop 1 buffer))
                 else Inl OutOfBounds))"

section \<open>Boost-control validation\<close>

record BoostSafety =
  cutThreshold :: c_float
  resumeThreshold :: c_float

record BoostControl =
  maxBoost :: c_float
  targetBoost :: c_float
  boostSolenoidDuty :: c_float
  wastegatePosition :: c_float
  safety :: BoostSafety

definition verify_boost_parameters :: "BoostControl \<Rightarrow> int" where
  "verify_boost_parameters boost =
     (if fgt (maxBoost boost) (Fin 60) \<or> fgt (targetBoost boost) (maxBoost boost) then -1
      else if fle (cutThreshold (safety boost)) (resumeThreshold (safety boost)) then -1
      else 0)"

record AfrTargets =
  idle :: c_float
  cruise :: c_float
  wot :: c_float
  acceleration :: c_float
  deceleration :: c_float

record InjectorTiming =
  startAngle :: c_float
  endAngle :: c_float
  deadTime :: c_float

record FuelManagement =
  volumetricEfficiency :: "c_float list"
  injectorScaling :: c_float
  afrTargets :: AfrTargets
  injectorTiming :: InjectorTiming

record SCTAdvancedTuning =
  fuelManagement :: FuelManagement
  boostControl :: BoostControl

text \<open>The loop over the 24 cells of the VE table: the first cell out of range ends it.\<close>

fun ve_in_range :: "c_float list \<Rightarrow> bool" where
  "ve_in_range [] = True"
| "ve_in_range (v # vs) = (if flt v (Fin 0) \<or> fgt v (Fin 2) then False else ve_in_range vs)"

definition verify_fuel_parameters :: "FuelManagement \<Rightarrow> int" where
  "verify_fuel_parameters fuel =
     (if ve_in_range (take 24 (volumetricEfficiency fuel)) then
        (if flt (idle (afrTargets fuel)) (Fin 10) \<or> fgt (idle (afrTargets fuel)) (Fin 20) \<or>
            flt (wot (afrTargets fuel)) (Fin 10) \<or> fgt (wot (afrTargets fuel)) (Fin 15)
         then -1 else 0)
      else -1)"

text \<open>
  \<open>sct_verify_tuning\<close>, the one caller of the two checks. \<open>got\<close> is the outcome of
  \<open>get_advanced_tuning\<close>: return code and the tuning it stores.
\<close>

definition sct_verify_tuning :: "int \<times> SCTAdvancedTuning \<Rightarrow> int" where
  "sct_verify_tuning got =
     (case got of (rc, tuning) \<Rightarrow>
        if rc \<noteq> 0 then -1
        else if verify_fuel_parameters (fuelManagement tuning) \<noteq> 0 then -1
        else if verify_boost_parameters (boostControl tuning) \<noteq> 0 then -1
        else 0)"

text \<open>
  Device initialisation, \<open>sct_init_device\<close>. The members of \<open>sct_interface\<close> that the
  module calls are given by their outcomes: return code, and what they store.
  \<open>start_monitoring\<close> takes a \<open>uint16_t\<close>, so the configured rate is cut to 16 bits.
\<close>

record SCTConfig =
  protocol_version :: uint32_t
  advanced_features :: bool
  high_speed_logging :: bool
  max_sample_rate :: uint32_t
  safety_features :: bool

record SCTDeviceInterface =
  get_parameters :: int
  check_firmware_version :: "int \<times> string"
  start_monitoring :: "uint16_t \<Rightarrow> int"
  get_safety_limits :: "int \<times> uint8_t list"
  set_safety_limits :: "uint8_t list \<Rightarrow> int"
  get_advanced_tuning :: "int \<times> SCTAdvancedTuning"

definition sct_test_communication :: "SCTDeviceInterface \<Rightarrow> int" where
  "sct_test_communication iface = (if get_parameters iface \<noteq> 0 then -1 else 0)"

text \<open>
  \<open>sct_check_compatibility\<close>. \<open>scan\<close> is \<open>sscanf(version, "%u.%u.%u", ...)\<close>: the three
  numbers when all three were read, else \<open>None\<close>.
\<close>

definition sct_check_compatibility ::
  "(string \<Rightarrow> (nat \<times> nat \<times> nat) option) \<Rightarrow> SCTDeviceInterface \<Rightarrow> int" where
  "sct_check_compatibility scan iface =
     (case check_firmware_version iface of (rc, version) \<Rightarrow>
        if rc \<noteq> 0 then -1
        else (case scan version of
                None \<Rightarrow> -1
              | Some (major, minor, patch) \<Rightarrow>
                  if major < 2 \<or> (major = 2 \<and> minor < 9) then -1 else 0))"

definition sct_init_safety :: "SCTDeviceInterface \<Rightarrow> int" where
  "sct_init_safety iface =
     (case get_safety_limits iface of (rc, limits) \<Rightarrow>
        if rc = 0 then (if set_safety_limits iface limits \<noteq> 0 then -1 else 0) else 0)"

definition sct_init_device ::
  "(string \<Rightarrow> (nat \<times> nat \<times> nat) option) \<Rightarrow> SCTDeviceInterface \<Rightarrow> SCTConfig \<Rightarrow> int" where
  "sct_init_device scan iface config =
     (if sct_test_communication iface \<noteq> 0 then -1
      else if sct_check_compatibility scan iface \<noteq> 0 then -1
      else if high_speed_logging config \<and>
              start_monitoring iface (ucast (max_sample_rate config)) \<noteq> 0 then -1
      else if safety_features config \<and> sct_init_safety iface \<noteq> 0 then -1
      else 0)"

text \<open>Sample data: a device that answers every call of the initialisation with success.\<close>

definition sample_interface :: "int \<times> SCTAdvancedTuning \<Rightarrow> SCTDeviceInterface" where
  "sample_interface tuning =
     \<lparr>get_parameters = 0, check_firmware_version = (0, ''2.9.0''),
      start_monitoring = (\<lambda>rate. 0), get_safety_limits = (0, [30, 25]),
      set_safety_limits = (\<lambda>limits. 0), get_advanced_tuning = tuning\<rparr>"

definition sample_config :: SCTConfig where
  "sample_config =
     \<lparr>protocol_version = 1, advanced_features = True, high_speed_logging = True,
      max_sample_rate = 100, safety_features = True\<rparr>"

definition sample_boost :: "c_float \<Rightarrow> c_float \<Rightarrow> BoostControl" where
  "sample_boost c r =
     \<lparr>maxBoost = Fin 30, targetBoost = Fin 20, boostSolenoidDuty = Fin 0,
      wastegatePosition = Fin 0,
      safety = \<lparr>cutThreshold = c, resumeThreshold = r\<rparr>\<rparr>"

text \<open>Sample data: a fuel table that passes \<open>verify_fuel_parameters\<close>.\<close>

definition sample_fuel :: FuelManagement where
  "sample_fuel =
     \<lparr>volumetricEfficiency = replicate 24 (Fin 1), injectorScaling = Fin 1,
      afrTargets = \<lparr>idle = Fin (147 / 10), cruise = Fin (143 / 10), wot = Fin (125 / 10),
                    acceleration = Fin 12, deceleration = Fin 15\<rparr>,
      injectorTiming = \<lparr>startAngle = Fin 0, endAngle = Fin 0, deadTime = Fin 0\<rparr>\<rparr>"

section \<open>The circular log buffer\<close>

record LogEntry =
  le_timestamp :: uint32_t
  le_pid :: uint16_t
  le_dataLength :: uint8_t
  le_data :: "uint8_t list"
  le_processedValue :: c_float
  le_priority :: uint8_t

text \<open>
  \<open>LogBuffer\<close>. \<open>entries\<close> is \<open>None\<close> for a null pointer, else the allocated block;
  \<open>sz\<close> is the field \<open>size\<close>. The four counters are \<open>size_t\<close>, taken as 64 bits wide.
\<close>

record LogBuffer =
  entries :: "LogEntry list option"
  capacity :: nat
  sz :: nat
  head :: nat
  tail :: nat

definition size_t_add :: "nat \<Rightarrow> nat \<Rightarrow> nat" where
  "size_t_add a b = (a + b) mod 2 ^ 64"

text \<open>
  \<open>sizeof(LogEntry)\<close> on the usual ABI: 4 + 2 + 1 + 8 bytes, one byte of padding, the
  \<open>float\<close>, the priority byte and three bytes of padding.
\<close>

definition sizeof_LogEntry :: nat where
  "sizeof_LogEntry = 24"

text \<open>
  \<open>malloc(bytes)\<close> for an array of entries: a null pointer when \<open>ok\<close> is false, else a
  block with room for \<open>bytes div sizeof(LogEntry)\<close> entries, holding whatever \<open>junk\<close>
  gives for each slot.
\<close>

definition malloc_entries :: "bool \<Rightarrow> (nat \<Rightarrow> LogEntry) \<Rightarrow> nat \<Rightarrow> LogEntry list option" where
  "malloc_entries ok junk bytes =
     (if ok then Some (map junk [0..<bytes div sizeof_LogEntry]) else None)"

text \<open>
  \<open>log_init\<close>: the size handed to \<open>malloc\<close> is the product
  \<open>sizeof(LogEntry) * capacity\<close> computed in \<open>size_t\<close>, so it wraps at \<open>2 ^ 64\<close>.
\<close>

definition log_init :: "bool \<Rightarrow> (nat \<Rightarrow> LogEntry) \<Rightarrow> nat \<Rightarrow> LogBuffer \<Rightarrow> int \<times> LogBuffer" where
  "log_init ok junk cap buffer =
     (case malloc_entries ok junk ((sizeof_LogEntry * cap) mod 2 ^ 64) of
        None \<Rightarrow> (-1, buffer\<lparr>entries := None\<rparr>)
      | Some es \<Rightarrow> (0, \<lparr>entries = Some es, capacity = cap, sz = 0, head = 0, tail = 0\<rparr>))"

definition log_write :: "LogBuffer \<Rightarrow> LogEntry \<Rightarrow> fault + LogBuffer" where
  "log_write buffer entry =
     (case entries buffer of
        None \<Rightarrow> Inl NullDeref
      | Some es \<Rightarrow>
          if head buffer < length es then
            (if capacity buffer = 0 then Inl DivByZero
             else
               (let b1 = buffer\<lparr>entries := Some (es[head buffer := entry]),
                                head := size_t_add (head buffer) 1 mod capacity buffer\<rparr>
                in if sz b1 < capacity b1 then Inr (b1\<lparr>sz := size_t_add (sz b1) 1\<rparr>)
                   else Inr (b1\<lparr>tail := size_t_add (tail b1) 1 mod capacity b1\<rparr>)))
          else Inl OutOfBounds)"

text \<open>Result: return code, the entry stored in \<open>*entry\<close> if any, and the buffer.\<close>

definition log_read :: "LogBuffer \<Rightarrow> fault + (int \<times> LogEntry option \<times> LogBuffer)" where
  "log_read buffer =
     (if sz buffer = 0 then Inr (-1, None, buffer)
      else case entries buffer of
             None \<Rightarrow> Inl NullDeref
           | Some es \<Rightarrow>
               if tail buffer < length es then
                 (if capacity buffer = 0 then Inl DivByZero
                  else Inr (0, Some (es ! tail buffer),
                            buffer\<lparr>tail := size_t_add (tail buffer) 1 mod capacity buffer,
                                   sz := sz buffer - 1\<rparr>))
               else Inl OutOfBounds)"

text \<open>The invariant of an initialised buffer.\<close>

definition log_inv :: "LogBuffer \<Rightarrow> bool" where
  "log_inv b =
     (0 < capacity b \<and> capacity b < 2 ^ 64 \<and>
      (case entries b of None \<Rightarrow> False | Some es \<Rightarrow> length es = capacity b) \<and>
      sz b \<le> capacity b \<and> head b < capacity b \<and> tail b < capacity b \<and>
      head b = (tail b + sz b) mod capacity b)"

text \<open>The entries held, oldest first: \<open>sz\<close> slots from \<open>tail\<close> on, wrapping round.\<close>

definition log_contents :: "LogBuffer \<Rightarrow> LogEntry list" where
  "log_contents b =
     (case entries b of
        None \<Rightarrow> []
      | Some es \<Rightarrow> map (\<lambda>i. es ! ((tail b + i) mod capacity b)) [0..<sz b])"

text \<open>A run of operations on one buffer; a fault ends the run.\<close>

datatype log_op = Write LogEntry | Read

fun log_step :: "LogBuffer \<Rightarrow> log_op \<Rightarrow> fault + LogBuffer" where
  "log_step b (Write e) = log_write b e"
| "log_step b Read = (case log_read b of Inl f \<Rightarrow> Inl f | Inr (rc, out, b') \<Rightarrow> Inr b')"

fun log_run :: "LogBuffer \<Rightarrow> log_op list \<Rightarrow> fault + LogBuffer" where
  "log_run b [] = Inr b"
| "log_run b (x # xs) = (case log_step b x of Inl f \<Rightarrow> Inl f | Inr b' \<Rightarrow> log_run b' xs)"

text \<open>Sample data for the examples below.\<close>

definition entry_of_pid :: "uint16_t \<Rightarrow> LogEntry" where
  "entry_of_pid p =
     \<lparr>le_timestamp = 0, le_pid = p, le_dataLength = 2, le_data = [0x20, 0x00],
      le_processedValue = Fin 2048, le_priority = 3\<rparr>"

definition empty_buffer :: LogBuffer where
  "empty_buffer = \<lparr>entries = None, capacity = 0, sz = 0, head = 0, tail = 0\<rparr>"

section \<open>CAN frames and ISO-TP segmentation\<close>

record CANFrame =
  can_id :: uint32_t
  dlc :: uint8_t
  can_data :: "uint8_t list"
  is_extended :: uint8_t
  is_remote :: uint8_t

definition ISO_TP_MAX_LENGTH :: nat where
  "ISO_TP_MAX_LENGTH = 4095"

text \<open>\<open>memcpy(&dst[off], src, n)\<close> on arrays as lists; \<open>src\<close> has at least \<open>n\<close> bytes.\<close>

definition memcpy_at :: "uint8_t list \<Rightarrow> nat \<Rightarrow> uint8_t list \<Rightarrow> nat \<Rightarrow> uint8_t list" where
  "memcpy_at dst off src n = take off dst @ take n src @ drop (off + n) dst"

text \<open>
  \<open>can_send_frame\<close> hands the frame to \<open>J2534_WriteMsgs\<close>. \<open>wr k\<close> is the return code of
  the write that follows \<open>k\<close> earlier ones; \<open>sent\<close> lists the frames handed over so far.
\<close>

definition can_send_frame :: "(nat \<Rightarrow> int) \<Rightarrow> CANFrame \<Rightarrow> CANFrame list \<Rightarrow> int \<times> CANFrame list" where
  "can_send_frame wr frame sent = (wr (length sent), sent @ [frame])"

text \<open>
  The loop over the consecutive frames. \<open>remaining\<close> is a \<open>uint16_t\<close> that only
  decreases, \<open>index\<close> a \<open>uint8_t\<close> (its addition wraps at 256), \<open>sequence\<close> a \<open>uint8_t\<close>.
\<close>

function consecutive_frames ::
  "(nat \<Rightarrow> int) \<Rightarrow> uint8_t list \<Rightarrow> CANFrame \<Rightarrow> nat \<Rightarrow> nat \<Rightarrow> uint8_t \<Rightarrow> CANFrame list
     \<Rightarrow> fault + (int \<times> CANFrame list)" where
  "consecutive_frames wr data frame remaining index sequence sent =
     (if remaining > 0 then
        (let block_size = (if remaining > 7 then 7 else remaining)
         in if index + block_size \<le> length data then
              (let f1 = frame\<lparr>can_data :=
                                 memcpy_at ((can_data frame)[0 := 0x20 OR (sequence AND 0x0F)])
                                   1 (drop index data) block_size,
                               dlc := of_nat (block_size + 1)\<rparr>
               in case can_send_frame wr f1 sent of (rc, sent') \<Rightarrow>
                    if rc \<noteq> 0 then Inr (-1, sent')
                    else consecutive_frames wr data f1 (remaining - block_size)
                           ((index + block_size) mod 256) ((sequence + 1) AND 0x0F) sent')
            else Inl OutOfBounds)
      else Inr (0, sent))"
  by pat_completeness auto
termination
  by (relation "measure (\<lambda>(wr, data, frame, remaining, index, sequence, sent). remaining)")
     (auto split: if_splits)

declare consecutive_frames.simps [simp del]

text \<open>
  \<open>can_iso_tp_send\<close>. \<open>data\<close> is the payload and \<open>length data\<close> the \<open>length\<close> argument;
  \<open>frame0\<close> gives the eight data bytes and the \<open>dlc\<close> the local \<open>frame\<close> starts with.
  The result is the return code and the frames handed to the adapter.
\<close>

definition can_iso_tp_send ::
  "(nat \<Rightarrow> int) \<Rightarrow> uint32_t \<Rightarrow> uint8_t list \<Rightarrow> CANFrame \<Rightarrow> fault + (int \<times> CANFrame list)" where
  "can_iso_tp_send wr ident data frame0 =
     (let len = length data
      in if len > ISO_TP_MAX_LENGTH then Inr (-1, [])
         else
           (let frame = frame0\<lparr>can_id := ident,
                                is_extended := (if ident > 0x7FF then 1 else 0),
                                is_remote := 0\<rparr>
            in if len \<le> 7 then
                 (let f1 = frame\<lparr>dlc := of_nat (len + 1),
                                  can_data := memcpy_at ((can_data frame)[0 := of_nat len]) 1 data len\<rparr>
                  in Inr (can_send_frame wr f1 []))
               else
                 (let f1 = frame\<lparr>dlc := 8,
                                  can_data := memcpy_at
                                    ((can_data frame)[0 := 0x10 OR (of_nat (len div 256) AND 0x0F),
                                                      1 := of_nat len])
                                    2 data 6\<rparr>
                  in case can_send_frame wr f1 [] of (rc, sent) \<Rightarrow>
                       if rc \<noteq> 0 then Inr (-1, sent)
                       else consecutive_frames wr data f1 (len - 6) 6 1 sent)))"

text \<open>
  Modelled from the spec: the receiving side of ISO-TP is not in the repository.
  Reassembly concatenates the payload bytes each frame declares: the six bytes after the
  two header bytes of a First Frame (upper nibble 1), and the \<open>dlc - 1\<close> bytes after the
  first byte of a single or consecutive frame.
\<close>

definition frame_payload :: "CANFrame \<Rightarrow> uint8_t list" where
  "frame_payload f =
     (if can_data f ! 0 AND 0xF0 = 0x10 then take 6 (drop 2 (can_data f))
      else take (unat (dlc f) - 1) (drop 1 (can_data f)))"

definition reassemble :: "CANFrame list \<Rightarrow> uint8_t list" where
  "reassemble frames = concat (map frame_payload frames)"

text \<open>The sequence numbers carried by the consecutive frames of a transmission.\<close>

definition sequence_numbers :: "CANFrame list \<Rightarrow> nat list" where
  "sequence_numbers frames = map (\<lambda>f. unat (can_data f ! 0 AND 0x0F)) (tl frames)"


section \<open>Hexadecimal output\<close>

lemma hexX_length: "0 < k \<Longrightarrow> n < 16 ^ k \<Longrightarrow> length (hexX n) \<le> k"
proof (induction k arbitrary: n)
  case 0
  then show ?case by simp
next
  case (Suc k)
  show ?case
  proof (cases "n < 16")
    case True
    then show ?thesis by (simp add: hexX.simps [of n])
  next
    case False
    then have k: "0 < k" using Suc.prems by (cases k) auto
    have "n div 16 < 16 ^ k" using Suc.prems by (simp add: less_mult_imp_div_less mult.commute)
    from Suc.IH [OF k this] False show ?thesis by (simp add: hexX.simps [of n])
  qed
qed

lemma printf_0wX_length: "0 < w \<Longrightarrow> n < 16 ^ w \<Longrightarrow> length (printf_0wX w n) = w"
  using hexX_length [of w n] by (simp add: printf_0wX_def)

lemma low14_bound: "unat ((raw :: uint16_t) AND 0x3FFF) < 16 ^ 4"
proof -
  have "unat (raw AND 0x3FFF) \<le> unat (0x3FFF :: uint16_t)"
    by (rule word_and_le1 [THEN word_le_nat_alt [THEN iffD1]])
  then show ?thesis by simp
qed

section \<open>Engine speed\<close>

text \<open>
  Claim C9. For all bytes \<open>msb\<close> and \<open>lsb\<close> the decoded engine speed is
  \<open>(msb * 256 + lsb) / 4\<close>; live monitoring (\<open>process_pid_data\<close>, PID 0x0C) and
  freeze-frame decoding (\<open>diag_read_freeze_frame\<close>, PID 0x0C) give the value of
  \<open>calculate_rpm\<close>; for \<open>msb = 0x20\<close>, \<open>lsb = 0x00\<close>, the bytes of the reply stored by
  \<open>obd2_receive_response\<close>, the value is 2048.
\<close>

theorem rpm_conversion:
  "calculate_rpm msb lsb = Fin ((of_nat (unat msb) * 256 + of_nat (unat lsb)) / 4)
   \<and> process_pid_data rnd 0x0C (msb # lsb # rest) = Inr (calculate_rpm msb lsb)
   \<and> freeze_frame_value rnd 0x0C [msb, lsb, b2] = calculate_rpm msb lsb
   \<and> freeze_frame_parse rnd dtc [0x0C, msb, lsb, b2] 4 0 [] =
       Inr [\<lparr>ff_dtc = dtc, ff_pid = 0x0C, ff_data = [msb, lsb, b2],
             ff_value = calculate_rpm msb lsb\<rparr>]
   \<and> calculate_rpm 0x20 0x00 = Fin 2048
   \<and> (let r = snd (obd2_receive_response (st\<lparr>initialized := 1\<rparr>) resp)
      in calculate_rpm (resp_data r ! 0) (resp_data r ! 1)) = Fin 2048"
  by (simp add: calculate_rpm_def process_pid_data_def byte_at_def freeze_frame_value_def
      obd2_receive_response_def
      freeze_frame_parse.simps [of _ _ _ _ 0] freeze_frame_parse.simps [of _ _ _ _ 4])

text \<open>
  The value is a multiple of one quarter below \<open>2 ^ 14\<close>, so the \<open>float\<close> arithmetic
  of the source is exact on it.
\<close>

lemma calculate_rpm_exact:
  "\<exists>m. m < 2 ^ 16 \<and> calculate_rpm msb lsb = Fin (of_nat m / 4)"
proof -
  have a: "unat msb < 256" and b: "unat lsb < 256"
    using unsigned_less [of msb, where ?'a = nat] unsigned_less [of lsb, where ?'a = nat] by simp_all
  then have "unat msb * 256 + unat lsb < 2 ^ 16" by simp
  moreover have "calculate_rpm msb lsb = Fin (of_nat (unat msb * 256 + unat lsb) / 4)"
    by (simp add: calculate_rpm_def)
  ultimately show ?thesis by blast
qed

section \<open>Trouble-code text\<close>

lemma diag_format_code_length: "length (diag_format_code raw) = 4"
  using printf_0wX_length [OF _ low14_bound, of raw]
  by (simp add: diag_format_code_def snprintf_buf_def)

text \<open>\<open>format_dtc\<close> of the monitor writes all five characters.\<close>

lemma byte_bound: "unat (b :: uint8_t) < 16 ^ 2"
  using unsigned_less [of b, where ?'a = nat] by simp

lemma dtc_prefix_length: "length (dtc_prefix ty) = 1"
proof -
  have "unat (ty AND 0x03) \<le> unat (0x03 :: uint8_t)"
    by (rule word_and_le1 [THEN word_le_nat_alt [THEN iffD1]])
  then have "unat (ty AND 0x03) \<in> {0, 1, 2, 3}" by auto
  then show ?thesis by (auto simp: dtc_prefix_def)
qed

lemma format_dtc_length: "length (format_dtc d0 d1) = 5"
  using printf_0wX_length [OF _ byte_bound, of "d0 AND 0x3F"]
        printf_0wX_length [OF _ byte_bound, of d1]
  by (simp add: format_dtc_def Let_def dtc_prefix_length)

lemma format_dtc_examples:
  "format_dtc 0x01 0x23 = ''P0123'' \<and> format_dtc 0x41 0x23 = ''C0123'' \<and>
   format_dtc 0x81 0x23 = ''B0123'' \<and> format_dtc 0xFF 0xFF = ''U3FFF''"
  by code_simp

text \<open>
  Claim C2. The claim asks for five characters, a letter and four hexadecimal digits.
  The code stored by \<open>diag_read_dtcs\<close> for the raw code 0x0123 is \<open>P012\<close>: the
  \<open>snprintf\<close> into the five-byte field keeps four characters and drops the last digit.
\<close>

theorem diag_format_code_truncated:
  "diag_format_code 0x0123 = ''P012'' \<and> length (diag_format_code 0x0123) = 4"
  by code_simp


section \<open>Reading trouble codes\<close>

lemma diag_parse_skips_zero:
  "i < msg_count \<Longrightarrow> i + 1 < length response \<Longrightarrow> response ! i = 0 \<Longrightarrow>
   response ! (i + 1) = 0 \<Longrightarrow>
   diag_parse t response msg_count i dtcs = diag_parse t response msg_count (i + 2) dtcs"
  by (simp add: diag_parse.simps [of t response msg_count i])

lemma dtc_parse_keeps_every_pair:
  "i < len \<Longrightarrow> length es < MAX_DTC_COUNT \<Longrightarrow> i + 1 < length buffer \<Longrightarrow>
   dtc_parse db buffer len i es =
   dtc_parse db buffer len (i + 2) (es @ [dtc_make_entry db (buffer ! i) (buffer ! (i + 1))])"
  by (simp add: dtc_parse.simps [of db buffer len i])

text \<open>
  Claim C5. The claim asks that the Mode 03 payload 01 23 00 00 decodes to exactly one
  entry with code \<open>P0123\<close>, the zero pair being skipped. \<open>diag_read_dtcs\<close> skips the zero
  pair and stores one entry, whose code is \<open>P012\<close>; \<open>dtc_read_current\<close> stores two
  entries, \<open>P0123\<close> and \<open>P0000\<close>, since its loop has no test for a zero pair.
\<close>

theorem mode03_example_decoding:
  "diag_read_dtcs
     \<lparr>send_request = (\<lambda>req. 0),
      receive_response = (\<lambda>req. (-1, \<lparr>resp_mode = 0, resp_pid = 0, resp_data = [0, 0, 0, 0],
                                         resp_checksum = 0\<rparr>)),
      read_msgs = (0, [0x01, 0x23, 0x00, 0x00], 4), clock = 0\<rparr>
   = Inr (0, [\<lparr>code = ''P012'', raw_code = 0x0123, status = None, timestamp = 0\<rparr>])
   \<and> dtc_read_current None
       (Some \<lparr>read_pid = (\<lambda>m p. (0, [0x01, 0x23, 0x00, 0x00], 4)), write_pid = (\<lambda>m p d. 0)\<rparr>)
   = Inr (0, [\<lparr>entry_code = ''P0123'',
               details = \<lparr>description = ''Unknown DTC'', severity = 3, system = ''Unknown''\<rparr>\<rparr>,
              \<lparr>entry_code = ''P0000'',
               details = \<lparr>description = ''Unknown DTC'', severity = 3, system = ''Unknown''\<rparr>\<rparr>])"
  by code_simp

section \<open>Clearing trouble codes: what counts as success\<close>

lemma diag_clear_dtcs_iff:
  "diag_clear_dtcs t = 0 \<longleftrightarrow>
     send_request t \<lparr>req_mode = 0x04, req_pid = 0x00\<rparr> = 0 \<and>
     fst (receive_response t \<lparr>req_mode = 0x04, req_pid = 0x00\<rparr>) = 0 \<and>
     resp_data (snd (receive_response t \<lparr>req_mode = 0x04, req_pid = 0x00\<rparr>)) ! 0 = 0x44"
  by (auto simp: diag_clear_dtcs_def Let_def split: prod.splits)

lemma dtc_clear_all_iff:
  "dtc_clear_all device = 0 \<longleftrightarrow> (\<exists>dev. device = Some dev \<and> write_pid dev 0x04 0x00 [0] = 0)"
  by (auto simp: dtc_clear_all_def split: option.splits)

text \<open>
  Claim C6. The claim asks that clearing reports success only when the response carries
  0x44. \<open>diag_clear_dtcs\<close> does so (\<open>diag_clear_dtcs_iff\<close>), and reports failure on a
  negative response 7F 04 22. \<open>dtc_clear_all\<close> reports success as soon as the device
  accepted the write: it reads no response at all.
\<close>

theorem dtc_clear_all_assumes_success:
  "dtc_clear_all (Some \<lparr>read_pid = (\<lambda>m p. (0, [0x7F, 0x04, 0x22], 3)),
                         write_pid = (\<lambda>m p d. 0)\<rparr>) = 0
   \<and> diag_clear_dtcs
       \<lparr>send_request = (\<lambda>req. 0),
        receive_response = (\<lambda>req. (0, \<lparr>resp_mode = 0x7F, resp_pid = 0x04,
                                          resp_data = [0x22, 0, 0, 0], resp_checksum = 0\<rparr>)),
        read_msgs = (0, [], 0), clock = 0\<rparr> = -1"
  by (simp add: dtc_clear_all_def diag_clear_dtcs_def)

section \<open>Protocol negotiation never selects a transport\<close>

lemma obd2_protocol_init_fails:
  "\<exists>st' j'. obd2_protocol_init a st j = Inr (-1, st', j')"
  by (simp add: obd2_protocol_init_def obd2_send_request_def obd_state_zero_def Let_def
      split: prod.splits)

text \<open>
  Claim C3. The claim asks that the first transport whose probe succeeds becomes active.
  With an adapter that loads, opens and accepts every connect, \<open>obd2_protocol_init\<close>
  returns -1 with \<open>initialized = 0\<close>: it clears the state before the probes, and
  \<open>obd2_send_request\<close> refuses every request while \<open>initialized\<close> is 0, so neither probe
  reaches the adapter.
\<close>

theorem protocol_init_rejects_working_adapter:
  "obd2_protocol_init
     \<lparr>lib_ok = True, pt_open = 0, pt_connect = (\<lambda>p f b. (0, 1)), pt_disconnect = (\<lambda>c. 0)\<rparr>
     obd_state_zero
     \<lparr>j2534_handle = False, current_channel = 0, open_channels = {}\<rparr>
   = Inr (-1,
          \<lparr>initialized = 0, protocol = 3, baudrate = 10400, flags = 0, error_count = 0,
           retry_count = 3\<rparr>,
          \<lparr>j2534_handle = True, current_channel = 0, open_channels = {}\<rparr>)"
  by (simp add: obd2_protocol_init_def obd2_send_request_def obd_state_zero_def Let_def
      J2534_Initialize_def J2534_STATUS_NOERROR_def J2534_PROTOCOL_CAN_def)

section \<open>Boost thresholds\<close>

lemma fle_of_not_flt: "a \<noteq> NaN \<Longrightarrow> b \<noteq> NaN \<Longrightarrow> \<not> flt b a \<Longrightarrow> fle a b"
  by (cases a; cases b) auto

lemma sct_init_device_ignores_tuning:
  "sct_init_device scan (iface\<lparr>get_advanced_tuning := t\<rparr>) config
     = sct_init_device scan iface config"
proof -
  have a: "sct_test_communication (iface\<lparr>get_advanced_tuning := t\<rparr>)
             = sct_test_communication iface"
    by (simp add: sct_test_communication_def)
  have b: "sct_check_compatibility scan (iface\<lparr>get_advanced_tuning := t\<rparr>)
             = sct_check_compatibility scan iface"
    by (simp add: sct_check_compatibility_def split: prod.splits)
  have c: "sct_init_safety (iface\<lparr>get_advanced_tuning := t\<rparr>) = sct_init_safety iface"
    by (simp add: sct_init_safety_def split: prod.splits)
  show ?thesis by (simp add: sct_init_device_def a b c)
qed

lemma sample_fuel_ok: "verify_fuel_parameters sample_fuel = 0"
  by (simp add: verify_fuel_parameters_def sample_fuel_def fgt_def eval_nat_numeral)

lemma sample_init_ok:
  "sct_init_device (\<lambda>v. Some (2, 9, 0)) (sample_interface t) sample_config = 0"
  by (simp add: sct_init_device_def sct_test_communication_def sct_check_compatibility_def
      sct_init_safety_def sample_interface_def sample_config_def)

lemma sample_boost_rejected: "verify_boost_parameters (sample_boost (Fin 20) (Fin 25)) = -1"
  by (simp add: verify_boost_parameters_def fgt_def sample_boost_def)

lemma sample_boost_nan: "verify_boost_parameters (sample_boost NaN (Fin 25)) = 0"
  by (simp add: verify_boost_parameters_def fgt_def sample_boost_def)

text \<open>
  Claim C7, as stated, fails in two ways. The check is not part of initialisation:
  \<open>sct_init_device\<close> succeeds on a device whose tuning has the resume threshold 25
  above the cut threshold 20, a tuning that \<open>sct_verify_tuning\<close> rejects when it is
  called. And with a cut threshold that is not a number the resume threshold 25 is not
  strictly below it, yet \<open>verify_boost_parameters\<close> and \<open>sct_verify_tuning\<close> accept the
  configuration, since the comparison \<open>cutThreshold <= resumeThreshold\<close> is false.
\<close>

theorem boost_check_counterexample:
  "sct_init_device (\<lambda>v. Some (2, 9, 0))
     (sample_interface
        (0, \<lparr>fuelManagement = sample_fuel, boostControl = sample_boost (Fin 20) (Fin 25)\<rparr>))
     sample_config = 0
   \<and> \<not> flt (Fin 25) (Fin 20)
   \<and> sct_verify_tuning
       (0, \<lparr>fuelManagement = sample_fuel, boostControl = sample_boost (Fin 20) (Fin 25)\<rparr>) = -1
   \<and> verify_boost_parameters (sample_boost NaN (Fin 25)) = 0
   \<and> sct_verify_tuning
       (0, \<lparr>fuelManagement = sample_fuel, boostControl = sample_boost NaN (Fin 25)\<rparr>) = 0
   \<and> \<not> flt (Fin 25) NaN"
proof -
  have i: "sct_init_device (\<lambda>v. Some (2, 9, 0))
     (sample_interface
        (0, \<lparr>fuelManagement = sample_fuel, boostControl = sample_boost (Fin 20) (Fin 25)\<rparr>))
     sample_config = 0"
    by (rule sample_init_ok)
  have v1: "sct_verify_tuning
       (0, \<lparr>fuelManagement = sample_fuel, boostControl = sample_boost (Fin 20) (Fin 25)\<rparr>) = -1"
    by (simp add: sct_verify_tuning_def sample_fuel_ok sample_boost_rejected)
  have v2: "sct_verify_tuning
       (0, \<lparr>fuelManagement = sample_fuel, boostControl = sample_boost NaN (Fin 25)\<rparr>) = 0"
    by (simp add: sct_verify_tuning_def sample_fuel_ok sample_boost_nan)
  have f: "\<not> flt (Fin 25) (Fin 20)" "\<not> flt (Fin 25) NaN" by simp_all
  from i v1 v2 f sample_boost_nan show ?thesis by blast
qed

text \<open>
  Claim C7, amended. The tuning validation (\<open>verify_boost_parameters\<close>, run by
  \<open>sct_verify_tuning\<close>) returns an error for every boost-control configuration whose
  two thresholds are numbers and whose resume threshold is not strictly below the cut
  threshold. It is not run at initialisation: the result of \<open>sct_init_device\<close> is the
  same whatever tuning the device holds.
\<close>

theorem boost_threshold_order:
  assumes "cutThreshold (safety boost) \<noteq> NaN"
    and "resumeThreshold (safety boost) \<noteq> NaN"
    and "\<not> flt (resumeThreshold (safety boost)) (cutThreshold (safety boost))"
  shows "verify_boost_parameters boost = -1 \<and>
         sct_verify_tuning (rc, \<lparr>fuelManagement = fuel, boostControl = boost\<rparr>) = -1 \<and>
         sct_init_device scan
           (iface\<lparr>get_advanced_tuning := (rc, \<lparr>fuelManagement = fuel, boostControl = boost\<rparr>)\<rparr>)
           config
         = sct_init_device scan iface config"
  using fle_of_not_flt [OF assms]
  by (simp add: verify_boost_parameters_def sct_verify_tuning_def
      sct_init_device_ignores_tuning)

theorem boost_threshold_order_witness:
  "verify_boost_parameters (sample_boost (Fin 20) (Fin 25)) = -1
   \<and> sct_verify_tuning
       (0, \<lparr>fuelManagement = sample_fuel, boostControl = sample_boost (Fin 20) (Fin 25)\<rparr>) = -1"
proof -
  have h: "cutThreshold (safety (sample_boost (Fin 20) (Fin 25))) \<noteq> NaN"
    "resumeThreshold (safety (sample_boost (Fin 20) (Fin 25))) \<noteq> NaN"
    "\<not> flt (resumeThreshold (safety (sample_boost (Fin 20) (Fin 25))))
           (cutThreshold (safety (sample_boost (Fin 20) (Fin 25))))"
    by (simp_all add: sample_boost_def)
  from boost_threshold_order [OF h, of 0 sample_fuel] show ?thesis by blast
qed

section \<open>Checksum\<close>

lemma checksum_loop_sum:
  "unat (checksum_loop bs s) = (unat s + sum_list (map unat bs)) mod 256"
proof (induction bs arbitrary: s)
  case Nil
  show ?case using unsigned_less [of s, where ?'a = nat] by simp
next
  case (Cons b bs)
  show ?case by (simp add: Cons.IH unat_word_ariths mod_simps add.assoc)
qed

text \<open>
  Claim C4, as stated, fails: the bytes 41 0C 20 00 have checksum 6D, and
  \<open>kwp_receive_response\<close> accepts the frame that ends in 6E instead, returning 0 and
  handing the wrong byte to the caller.
\<close>

theorem kwp_accepts_tampered_checksum:
  "calculate_checksum [0x41, 0x0C, 0x20, 0x00] 4 = Inr 0x6D \<and>
   kwp_receive_response (0, [0x41, 0x0C, 0x20, 0x00, 0x6E] @ replicate 250 0, 5)
     = Inr (0, [0x0C, 0x20, 0x00, 0x6E])"
  by (simp add: calculate_checksum_def kwp_receive_response_def KWP_MAX_LENGTH_def)

text \<open>
  Claim C4, amended. The checksum of a buffer is the sum of its bytes truncated to 8
  bits, a function of the bytes alone, and the ISO 9141-2 request ends with the checksum
  of its five preceding bytes. \<open>kwp_receive_response\<close> recomputes no checksum: a frame
  of \<open>n\<close> bytes whose first byte has bit 6 set is accepted whatever its last byte \<open>x\<close>
  is, and \<open>x\<close> is passed on as data.
\<close>

theorem kwp_checksum_and_receive:
  assumes "length buffer = 255" and "2 \<le> n" and "n \<le> 255"
    and "buffer ! 0 = (0x40 OR buffer ! 0)"
  shows "(\<exists>c. calculate_checksum bs (length bs) = Inr c \<and>
              unat c = sum_list (map unat bs) mod 256) \<and>
         (\<exists>c. calculate_checksum [0x68, 0x6A, 0xF1, req_mode req, req_pid req] 5 = Inr c \<and>
              iso9141_request req = Inr [0x68, 0x6A, 0xF1, req_mode req, req_pid req, c]) \<and>
         kwp_receive_response (0, buffer[n - 1 := x], of_nat n)
           = Inr (0, take (n - 1) (drop 1 (buffer[n - 1 := x])))"
proof -
  have a: "\<exists>c. calculate_checksum bs (length bs) = Inr c \<and>
              unat c = sum_list (map unat bs) mod 256"
    by (simp add: calculate_checksum_def checksum_loop_sum)
  have b: "\<exists>c. calculate_checksum [0x68, 0x6A, 0xF1, req_mode req, req_pid req] 5 = Inr c \<and>
              iso9141_request req = Inr [0x68, 0x6A, 0xF1, req_mode req, req_pid req, c]"
    by (simp add: calculate_checksum_def iso9141_request_def)
  have n1: "unat ((of_nat n :: uint32_t) - 1) = n - 1"
  proof -
    have "(of_nat n :: uint32_t) - 1 = of_nat (n - 1)" using assms(2) by (simp add: of_nat_diff)
    moreover have "unat (of_nat (n - 1) :: uint32_t) = n - 1"
      using assms(3) by (simp add: unat_of_nat)
    ultimately show ?thesis by simp
  qed
  have first: "(buffer[n - 1 := x]) ! 0 = buffer ! 0" using assms(2) by simp
  have c: "kwp_receive_response (0, buffer[n - 1 := x], of_nat n)
           = Inr (0, take (n - 1) (drop 1 (buffer[n - 1 := x])))"
    using assms first n1
    by (simp add: kwp_receive_response_def KWP_MAX_LENGTH_def Let_def)
  from a b c show ?thesis by blast
qed

theorem kwp_checksum_and_receive_witness:
  "kwp_receive_response (0, ([0x41, 0x0C, 0x20, 0x00, 0x6D] @ replicate 250 0)[4 := 0xFF], 5)
     = Inr (0, [0x0C, 0x20, 0x00, 0xFF])"
  using kwp_checksum_and_receive
    [of "[0x41, 0x0C, 0x20, 0x00, 0x6D] @ replicate 250 0" 5 "[]" req "0xFF"]
  by simp

section \<open>One channel per adapter\<close>

lemma j2534_step_single_channel:
  assumes "single_channel s" and "well_behaved c"
  shows "single_channel (j2534_step s c)"
proof (cases c)
  case (Connect disc_rc conn)
  obtain result channel_id where conn: "conn = (result, channel_id)" by (cases conn)
  with assms Connect show ?thesis
    by (auto simp: single_channel_def J2534_Connect_def J2534_Disconnect_def Let_def
        split: if_splits)
next
  case (Disconnect pt_rc ch)
  with assms show ?thesis
    by (auto simp: single_channel_def J2534_Disconnect_def split: if_splits)
qed

lemma j2534_run_single_channel:
  "single_channel s \<Longrightarrow> list_all well_behaved calls \<Longrightarrow> single_channel (j2534_run s calls)"
  unfolding j2534_run_def
  by (induction calls arbitrary: s) (simp_all add: j2534_step_single_channel)

lemma single_channel_card: "single_channel s \<Longrightarrow> card (open_channels s) \<le> 1"
  by (simp add: single_channel_def)

text \<open>
  Claim C8. The claim asks that a connect disconnects the open channel first, so that
  two channels are never open. \<open>J2534_Connect\<close> calls \<open>J2534_Disconnect\<close> but does
  not look at its result: when the library answers the disconnect of channel 1 with a
  timeout and then connects channel 2, the module forgets channel 1 and the library
  holds two channels open.
\<close>

theorem connect_leaks_channel:
  "j2534_run j2534_initial [Connect 0 (0, 1), Connect J2534_ERR_TIMEOUT (0, 2)]
     = \<lparr>j2534_handle = True, current_channel = 2, open_channels = {1, 2}\<rparr>
   \<and> card (open_channels
        (j2534_run j2534_initial [Connect 0 (0, 1), Connect J2534_ERR_TIMEOUT (0, 2)])) = 2"
  by (simp add: j2534_run_def j2534_initial_def J2534_Connect_def J2534_Disconnect_def
      J2534_STATUS_NOERROR_def J2534_ERR_TIMEOUT_def Let_def insert_commute)

text \<open>
  The same happens when the library hands out 0 as a channel id: 0 is the module's mark
  for "no channel", so the next connect does not disconnect it.
\<close>

lemma connect_leaks_channel_zero:
  "j2534_run j2534_initial [Connect 0 (0, 0), Connect 0 (0, 3)]
     = \<lparr>j2534_handle = True, current_channel = 3, open_channels = {0, 3}\<rparr>"
  by (simp add: j2534_run_def j2534_initial_def J2534_Connect_def J2534_Disconnect_def
      J2534_STATUS_NOERROR_def Let_def insert_commute)

text \<open>
  Where the disconnects issued by connects succeed and no channel id is 0, every state
  reached by connects and disconnects has at most one open channel, and that channel is
  \<open>current_channel\<close>.
\<close>

lemma one_channel_when_well_behaved:
  assumes "single_channel s" and "list_all well_behaved calls"
  shows "single_channel (j2534_run s calls) \<and> card (open_channels (j2534_run s calls)) \<le> 1"
  using j2534_run_single_channel [OF assms] single_channel_card by blast

section \<open>The circular log buffer\<close>

lemma mod_shift_neq:
  fixes t a b c :: nat
  assumes "a < b" and "b - a < c"
  shows "(t + a) mod c \<noteq> (t + b) mod c"
proof
  assume "(t + a) mod c = (t + b) mod c"
  then have "(t + b) mod c = (t + a) mod c" by simp
  moreover have "t + a \<le> t + b" using assms(1) by simp
  ultimately have "c dvd (t + b) - (t + a)" by (simp add: mod_eq_dvd_iff_nat)
  then have "c dvd b - a" by simp
  moreover have "0 < b - a" using assms(1) by simp
  ultimately have "c \<le> b - a" by (rule dvd_imp_le)
  with assms(2) show False by simp
qed

lemma mod_succ_shift:
  fixes t i c :: nat
  shows "((t + 1) mod c + i) mod c = (t + (i + 1)) mod c"
  by (metis add.assoc add.commute mod_add_left_eq)

lemma log_contents_length: "log_inv b \<Longrightarrow> length (log_contents b) = sz b"
  by (auto simp: log_inv_def log_contents_def split: option.splits)

lemma log_init_inv:
  assumes "fst (log_init ok junk cap b0) = 0" and "0 < cap" and "sizeof_LogEntry * cap < 2 ^ 64"
  shows "log_inv (snd (log_init ok junk cap b0)) \<and>
         log_contents (snd (log_init ok junk cap b0)) = [] \<and>
         sz (snd (log_init ok junk cap b0)) = 0 \<and>
         capacity (snd (log_init ok junk cap b0)) = cap"
proof -
  have ok: ok
    using assms(1) by (cases ok) (simp_all add: log_init_def malloc_entries_def)
  have c64: "cap < 2 ^ 64" using assms(3) by (simp add: sizeof_LogEntry_def)
  have "(sizeof_LogEntry * cap) mod 2 ^ 64 div sizeof_LogEntry = cap"
    using assms(3) by (simp add: sizeof_LogEntry_def)
  then show ?thesis
    using ok assms(2) c64 by (simp add: log_init_def malloc_entries_def log_inv_def log_contents_def)
qed

lemma log_write_not_full:
  assumes inv: "log_inv b" and nf: "sz b < capacity b"
  shows "\<exists>b'. log_write b e = Inr b' \<and> log_inv b' \<and> capacity b' = capacity b \<and>
              sz b' = sz b + 1 \<and> tail b' = tail b \<and>
              log_contents b' = log_contents b @ [e]"
proof -
  from inv obtain es where es: "entries b = Some es" and len: "length es = capacity b"
    by (auto simp: log_inv_def split: option.splits)
  from inv have cap: "0 < capacity b" "capacity b < 2 ^ 64" and hd: "head b < capacity b"
    and tl: "tail b < capacity b" and hts: "head b = (tail b + sz b) mod capacity b"
    by (simp_all add: log_inv_def)
  have h1: "size_t_add (head b) 1 = head b + 1" using hd cap by (simp add: size_t_add_def)
  have s1: "size_t_add (sz b) 1 = sz b + 1" using nf cap by (simp add: size_t_add_def)
  define b' where "b' = b\<lparr>entries := Some (es[head b := e]),
                          head := (head b + 1) mod capacity b, sz := sz b + 1\<rparr>"
  have w: "log_write b e = Inr b'"
    using es len hd cap nf h1 s1 by (simp add: log_write_def Let_def b'_def)
  have "(head b + 1) mod capacity b = (tail b + (sz b + 1)) mod capacity b"
    using hts by (metis add.assoc mod_add_left_eq)
  then have i: "log_inv b'"
    using inv nf len es by (simp add: log_inv_def b'_def)
  have c: "log_contents b' = log_contents b @ [e]"
  proof -
    have old: "\<And>i. i < sz b \<Longrightarrow> es[head b := e] ! ((tail b + i) mod capacity b)
                 = es ! ((tail b + i) mod capacity b)"
    proof -
      fix i assume "i < sz b"
      then have "(tail b + i) mod capacity b \<noteq> (tail b + sz b) mod capacity b"
        using nf by (intro mod_shift_neq) simp_all
      then show "es[head b := e] ! ((tail b + i) mod capacity b) = es ! ((tail b + i) mod capacity b)"
        using hts by simp
    qed
    have new: "es[head b := e] ! ((tail b + sz b) mod capacity b) = e"
      using hts hd len by simp
    show ?thesis
      using old new by (simp add: log_contents_def b'_def es)
  qed
  from w i c show ?thesis by (auto simp: b'_def)
qed

lemma log_write_full:
  assumes inv: "log_inv b" and full: "sz b = capacity b"
  shows "\<exists>b'. log_write b e = Inr b' \<and> log_inv b' \<and> capacity b' = capacity b \<and>
              sz b' = sz b \<and> tail b' = (tail b + 1) mod capacity b \<and>
              log_contents b' = tl (log_contents b) @ [e]"
proof -
  from inv obtain es where es: "entries b = Some es" and len: "length es = capacity b"
    by (auto simp: log_inv_def split: option.splits)
  from inv have cap: "0 < capacity b" "capacity b < 2 ^ 64" and hd: "head b < capacity b"
    and tl: "tail b < capacity b" and hts: "head b = (tail b + sz b) mod capacity b"
    by (simp_all add: log_inv_def)
  have ht: "head b = tail b" using hts full tl by simp
  have h1: "size_t_add (head b) 1 = head b + 1" using hd cap by (simp add: size_t_add_def)
  have t1: "size_t_add (tail b) 1 = tail b + 1" using tl cap by (simp add: size_t_add_def)
  define b' where "b' = b\<lparr>entries := Some (es[head b := e]),
                          head := (head b + 1) mod capacity b,
                          tail := (tail b + 1) mod capacity b\<rparr>"
  have w: "log_write b e = Inr b'"
    using es len hd cap full h1 t1 by (simp add: log_write_def Let_def b'_def)
  have i: "log_inv b'"
    using inv full len es ht cap by (simp add: log_inv_def b'_def)
  have c: "log_contents b' = tl (log_contents b) @ [e]"
  proof (rule nth_equalityI)
    show "length (log_contents b') = length (tl (log_contents b) @ [e])"
      using cap full by (simp add: log_contents_def b'_def es)
  next
    fix i assume "i < length (log_contents b')"
    then have ic: "i < capacity b" using full by (simp add: log_contents_def b'_def es)
    have lhs: "log_contents b' ! i = es[tail b := e] ! ((tail b + (i + 1)) mod capacity b)"
      using ic full ht mod_succ_shift [of "tail b" "capacity b" i]
      by (simp add: log_contents_def b'_def es)
    show "log_contents b' ! i = (tl (log_contents b) @ [e]) ! i"
    proof (cases "i + 1 < capacity b")
      case True
      have "(tail b + 0) mod capacity b \<noteq> (tail b + (i + 1)) mod capacity b"
        using True by (intro mod_shift_neq) simp_all
      then have "es[tail b := e] ! ((tail b + (i + 1)) mod capacity b)
                   = es ! ((tail b + (i + 1)) mod capacity b)"
        using tl by simp
      moreover have "(tl (log_contents b) @ [e]) ! i = es ! ((tail b + (i + 1)) mod capacity b)"
        using True full by (simp add: log_contents_def es nth_append nth_tl)
      ultimately show ?thesis using lhs by simp
    next
      case False
      with ic have ieq: "i + 1 = capacity b" by simp
      have "es[tail b := e] ! ((tail b + (i + 1)) mod capacity b) = e"
        using ieq tl len by simp
      moreover have "(tl (log_contents b) @ [e]) ! i = e"
        using ieq full by (simp add: log_contents_def es nth_append)
      ultimately show ?thesis using lhs by simp
    qed
  qed
  from w i c show ?thesis by (auto simp: b'_def)
qed

lemma log_read_empty:
  "sz b = 0 \<Longrightarrow> log_read b = Inr (-1, None, b)"
  by (simp add: log_read_def)

lemma log_read_nonempty:
  assumes inv: "log_inv b" and ne: "0 < sz b"
  shows "\<exists>b'. log_read b = Inr (0, Some (hd (log_contents b)), b') \<and> log_inv b' \<and>
              capacity b' = capacity b \<and> sz b' = sz b - 1 \<and>
              log_contents b' = tl (log_contents b)"
proof -
  from inv obtain es where es: "entries b = Some es" and len: "length es = capacity b"
    by (auto simp: log_inv_def split: option.splits)
  from inv have cap: "0 < capacity b" "capacity b < 2 ^ 64" and hd: "head b < capacity b"
    and tl: "tail b < capacity b" and hts: "head b = (tail b + sz b) mod capacity b"
    and sc: "sz b \<le> capacity b"
    by (simp_all add: log_inv_def)
  have t1: "size_t_add (tail b) 1 = tail b + 1" using tl cap by (simp add: size_t_add_def)
  define b' where "b' = b\<lparr>tail := (tail b + 1) mod capacity b, sz := sz b - 1\<rparr>"
  have h: "hd (log_contents b) = es ! tail b"
    using ne tl by (simp add: log_contents_def es hd_map upt_conv_Cons)
  have r: "log_read b = Inr (0, Some (hd (log_contents b)), b')"
    using es len tl cap ne t1 h by (simp add: log_read_def b'_def)
  have "((tail b + 1) mod capacity b + (sz b - 1)) mod capacity b = (tail b + sz b) mod capacity b"
    using ne mod_succ_shift [of "tail b" "capacity b" "sz b - 1"] by simp
  moreover have "sz b - 1 \<le> capacity b" using sc by simp
  ultimately have i: "log_inv b'"
    using inv len es by (simp add: log_inv_def b'_def)
  have c: "log_contents b' = tl (log_contents b)"
  proof (rule nth_equalityI)
    show "length (log_contents b') = length (tl (log_contents b))"
      by (simp add: log_contents_def b'_def es)
  next
    fix i assume "i < length (log_contents b')"
    then have ic: "i < sz b - 1" by (simp add: log_contents_def b'_def es)
    then show "log_contents b' ! i = tl (log_contents b) ! i"
      using mod_succ_shift [of "tail b" "capacity b" i]
      by (simp add: log_contents_def b'_def es nth_tl)
  qed
  from r i c show ?thesis by (auto simp: b'_def)
qed

lemma log_step_inv:
  assumes "log_inv b"
  shows "\<exists>b'. log_step b x = Inr b' \<and> log_inv b' \<and> capacity b' = capacity b"
proof (cases x)
  case (Write e)
  show ?thesis
  proof (cases "sz b < capacity b")
    case True
    from log_write_not_full [OF assms True, of e] Write show ?thesis by auto
  next
    case False
    with assms have "sz b = capacity b" by (simp add: log_inv_def)
    from log_write_full [OF assms this, of e] Write show ?thesis by auto
  qed
next
  case Read
  show ?thesis
  proof (cases "sz b = 0")
    case True
    with assms Read show ?thesis by (simp add: log_read_empty)
  next
    case False
    then have "0 < sz b" by simp
    from log_read_nonempty [OF assms this] Read show ?thesis by auto
  qed
qed

lemma log_run_inv:
  "log_inv b \<Longrightarrow> \<exists>b'. log_run b ops = Inr b' \<and> log_inv b' \<and> capacity b' = capacity b"
proof (induction ops arbitrary: b)
  case Nil
  then show ?case by simp
next
  case (Cons x xs)
  from log_step_inv [OF Cons.prems, of x] obtain b1
    where b1: "log_step b x = Inr b1" "log_inv b1" "capacity b1 = capacity b" by blast
  from Cons.IH [OF b1(2)] b1 show ?case by auto
qed

text \<open>
  Claim C10, as stated, fails in two ways, both at \<open>log_init\<close>, which checks neither
  the capacity nor the size it asks for. With capacity 0 the buffer is full with no
  entry, and \<open>log_write\<close> stores outside the block instead of overwriting an oldest
  entry. With capacity \<open>2 ^ 61 + 1\<close> the product \<open>sizeof(LogEntry) * capacity\<close> wraps to
  24, \<open>log_init\<close> returns 0 with a block of one entry, and the second \<open>log_write\<close>
  stores outside it.
\<close>

theorem log_init_bad_capacity:
  "log_init True (\<lambda>i. entry_of_pid 0) 0 empty_buffer
     = (0, \<lparr>entries = Some [], capacity = 0, sz = 0, head = 0, tail = 0\<rparr>)
   \<and> log_write \<lparr>entries = Some [], capacity = 0, sz = 0, head = 0, tail = 0\<rparr>
        (entry_of_pid 0x0C) = Inl OutOfBounds
   \<and> log_init True (\<lambda>i. entry_of_pid 0) 2305843009213693953 empty_buffer
     = (0, \<lparr>entries = Some [entry_of_pid 0], capacity = 2305843009213693953, sz = 0,
            head = 0, tail = 0\<rparr>)
   \<and> log_run \<lparr>entries = Some [entry_of_pid 0], capacity = 2305843009213693953, sz = 0,
               head = 0, tail = 0\<rparr>
        [Write (entry_of_pid 1), Write (entry_of_pid 2)] = Inl OutOfBounds"
  by (simp add: log_init_def malloc_entries_def sizeof_LogEntry_def log_write_def
      empty_buffer_def size_t_add_def Let_def)

text \<open>
  Claim C10, amended. For a buffer that \<open>log_init\<close> initialised with a capacity above
  0 whose product with \<open>sizeof(LogEntry)\<close> fits \<open>size_t\<close>, every state reached by
  writes and reads satisfies \<open>size \<le> capacity\<close> and
  \<open>head = (tail + size) mod capacity\<close>. A write to a buffer that is not full appends the
  entry; a write to a full buffer drops the oldest entry, advances \<open>tail\<close> and appends
  the entry, with \<open>size\<close> unchanged. A read of an empty buffer returns -1 and leaves the
  buffer as it is; any other read returns the oldest entry and removes it.
\<close>

theorem log_buffer_fifo:
  assumes "fst (log_init ok junk cap b0) = 0" and "0 < cap"
    and "sizeof_LogEntry * cap < 2 ^ 64"
  shows "\<exists>b. log_run (snd (log_init ok junk cap b0)) ops = Inr b \<and>
              capacity b = cap \<and> sz b \<le> capacity b \<and>
              head b = (tail b + sz b) mod capacity b \<and>
              length (log_contents b) = sz b \<and>
              (\<exists>b'. log_write b e = Inr b' \<and>
                    (if sz b < capacity b
                     then sz b' = sz b + 1 \<and> tail b' = tail b \<and>
                          log_contents b' = log_contents b @ [e]
                     else sz b' = sz b \<and> tail b' = (tail b + 1) mod capacity b \<and>
                          log_contents b' = tl (log_contents b) @ [e])) \<and>
              (if sz b = 0 then log_read b = Inr (-1, None, b)
               else \<exists>b'. log_read b = Inr (0, Some (hd (log_contents b)), b') \<and>
                         sz b' = sz b - 1 \<and> log_contents b' = tl (log_contents b))"
proof -
  let ?b0 = "snd (log_init ok junk cap b0)"
  from log_init_inv [OF assms]
  have i0: "log_inv ?b0" "capacity ?b0 = cap"
    by simp_all
  from log_run_inv [OF i0(1), of ops] obtain b
    where b: "log_run ?b0 ops = Inr b" "log_inv b" "capacity b = capacity ?b0" by blast
  have w: "\<exists>b'. log_write b e = Inr b' \<and>
                (if sz b < capacity b
                 then sz b' = sz b + 1 \<and> tail b' = tail b \<and>
                      log_contents b' = log_contents b @ [e]
                 else sz b' = sz b \<and> tail b' = (tail b + 1) mod capacity b \<and>
                      log_contents b' = tl (log_contents b) @ [e])"
  proof (cases "sz b < capacity b")
    case True
    from log_write_not_full [OF b(2) True, of e] True show ?thesis by auto
  next
    case False
    with b(2) have "sz b = capacity b" by (simp add: log_inv_def)
    from log_write_full [OF b(2) this, of e] False show ?thesis by auto
  qed
  have r: "if sz b = 0 then log_read b = Inr (-1, None, b)
           else \<exists>b'. log_read b = Inr (0, Some (hd (log_contents b)), b') \<and>
                     sz b' = sz b - 1 \<and> log_contents b' = tl (log_contents b)"
  proof (cases "sz b = 0")
    case True
    then show ?thesis by (simp add: log_read_empty)
  next
    case False
    then have "0 < sz b" by simp
    from log_read_nonempty [OF b(2) this] False show ?thesis by auto
  qed
  from b(2) have "sz b \<le> capacity b" "head b = (tail b + sz b) mod capacity b"
    by (simp_all add: log_inv_def)
  with i0 b w r log_contents_length [OF b(2)] show ?thesis by auto
qed

theorem log_buffer_fifo_witness:
  "log_run (snd (log_init True (\<lambda>i. entry_of_pid 0) 2 empty_buffer))
     [Write (entry_of_pid 1), Write (entry_of_pid 2), Write (entry_of_pid 3), Read]
   = Inr \<lparr>entries = Some [entry_of_pid 3, entry_of_pid 2], capacity = 2, sz = 1,
          head = 1, tail = 0\<rparr>
   \<and> (\<exists>b'. log_write \<lparr>entries = Some [entry_of_pid 3, entry_of_pid 2], capacity = 2, sz = 1,
                       head = 1, tail = 0\<rparr> (entry_of_pid 4) = Inr b'
           \<and> log_contents b' = [entry_of_pid 3, entry_of_pid 4])"
proof -
  let ?B = "\<lparr>entries = Some [entry_of_pid 3, entry_of_pid 2], capacity = 2, sz = 1,
             head = 1, tail = 0\<rparr>"
  let ?ops = "[Write (entry_of_pid 1), Write (entry_of_pid 2), Write (entry_of_pid 3), Read]"
  let ?junk = "\<lambda>i::nat. entry_of_pid 0"
  have two: "[0..<2] = [0, Suc 0]" by (simp add: upt_rec)
  have init: "log_init True ?junk 2 empty_buffer
              = (0, \<lparr>entries = Some [entry_of_pid 0, entry_of_pid 0], capacity = 2, sz = 0,
                     head = 0, tail = 0\<rparr>)"
    by (simp add: log_init_def malloc_entries_def sizeof_LogEntry_def two)
  have run: "log_run (snd (log_init True ?junk 2 empty_buffer)) ?ops = Inr ?B"
    unfolding init
    by (simp add: log_write_def log_read_def size_t_add_def Let_def)
  have c: "log_contents ?B = [entry_of_pid 3]"
    by (simp add: log_contents_def)
  have h: "fst (log_init True ?junk 2 empty_buffer) = 0" "(0::nat) < 2"
    "sizeof_LogEntry * 2 < 2 ^ 64"
    by (simp_all add: init sizeof_LogEntry_def)
  from log_buffer_fifo [OF h, of ?ops "entry_of_pid 4"]
  obtain b b' where b: "log_run (snd (log_init True ?junk 2 empty_buffer)) ?ops = Inr b"
    and w: "log_write b (entry_of_pid 4) = Inr b'"
    and k: "if sz b < capacity b
            then sz b' = sz b + 1 \<and> tail b' = tail b \<and>
                 log_contents b' = log_contents b @ [entry_of_pid 4]
            else sz b' = sz b \<and> tail b' = (tail b + 1) mod capacity b \<and>
                 log_contents b' = tl (log_contents b) @ [entry_of_pid 4]"
    by blast
  from b run have beq: "b = ?B" by simp
  from k have "log_contents b' = [entry_of_pid 3, entry_of_pid 4]"
    unfolding beq using c by simp
  with w run show ?thesis unfolding beq by blast
qed

section \<open>ISO-TP segmentation\<close>

lemma nib0: "((x :: uint8_t) AND 0x0F) AND 0xF0 = 0"
  by (simp add: and.assoc)

lemma pci_cf: "(0x20 OR ((s :: uint8_t) AND 0x0F)) AND 0xF0 = 0x20"
  by (simp add: bit.conj_disj_distrib2 nib0)

lemma pci_ff: "(0x10 OR ((s :: uint8_t) AND 0x0F)) AND 0xF0 = 0x10"
  by (simp add: bit.conj_disj_distrib2 nib0)

lemma pci_sf: "len \<le> 7 \<Longrightarrow> (of_nat len :: uint8_t) AND 0xF0 = 0"
proof -
  assume "len \<le> 7"
  then have "len \<in> {0, 1, 2, 3, 4, 5, 6, 7}" by auto
  then show ?thesis by auto
qed

lemma memcpy_at_length:
  "off + n \<le> length dst \<Longrightarrow> n \<le> length src \<Longrightarrow> length (memcpy_at dst off src n) = length dst"
  by (simp add: memcpy_at_def)

lemma memcpy_at_first:
  "0 < off \<Longrightarrow> off \<le> length dst \<Longrightarrow> memcpy_at dst off src n ! 0 = dst ! 0"
  by (simp add: memcpy_at_def nth_append)

lemma memcpy_at_copied:
  "off \<le> length dst \<Longrightarrow> n \<le> length src \<Longrightarrow>
   take n (drop off (memcpy_at dst off src n)) = take n src"
  by (simp add: memcpy_at_def)

lemma dlc_unat:
  assumes "block \<le> 7"
  shows "unat (of_nat (block + 1) :: uint8_t) = block + 1"
proof -
  have "unat (of_nat (block + 1) :: uint8_t) = (block + 1) mod 2 ^ LENGTH(8)"
    by (rule unat_of_nat)
  also have "\<dots> = block + 1" using assms by simp
  finally show ?thesis .
qed

lemma cf_payload:
  assumes "length d = 8" and "block \<le> 7" and "block \<le> length src"
  shows "frame_payload (frame\<lparr>can_data := memcpy_at (d[0 := 0x20 OR (s AND 0x0F)]) 1 src block,
                              dlc := of_nat (block + 1)\<rparr>) = take block src"
proof -
  have f: "memcpy_at (d[0 := 0x20 OR (s AND 0x0F)]) 1 src block ! 0 = 0x20 OR (s AND 0x0F)"
    using assms(1) by (simp add: memcpy_at_first)
  have c: "take block (drop 1 (memcpy_at (d[0 := 0x20 OR (s AND 0x0F)]) 1 src block)) = take block src"
    using assms by (intro memcpy_at_copied) simp_all
  show ?thesis
    using f c dlc_unat [OF assms(2)] by (simp add: frame_payload_def pci_cf)
qed

lemma consecutive_frames_done:
  "consecutive_frames wr data frame 0 index s sent = Inr (0, sent)"
  by (simp add: consecutive_frames.simps [of wr data frame 0])

lemma consecutive_frames_ok:
  assumes "length (can_data frame) = 8"
      and "index + remaining = length data"
      and "length data \<le> 258"
      and "index mod 7 = 6"
  shows "\<exists>fs. consecutive_frames (\<lambda>k. 0) data frame remaining index s sent = Inr (0, sent @ fs) \<and>
              concat (map frame_payload fs) = drop index data"
  using assms
proof (induction remaining arbitrary: frame index s sent rule: less_induct)
  case (less remaining)
  show ?case
  proof (cases "remaining = 0")
    case True
    with less.prems show ?thesis by (simp add: consecutive_frames_done)
  next
    case False
    define block where "block = (if remaining > 7 then 7 else remaining)"
    have b7: "block \<le> 7" and br: "block \<le> remaining" and b0: "0 < block"
      using False by (simp_all add: block_def)
    define f1 where "f1 = frame\<lparr>can_data :=
                                 memcpy_at ((can_data frame)[0 := 0x20 OR (s AND 0x0F)])
                                   1 (drop index data) block,
                               dlc := of_nat (block + 1)\<rparr>"
    have inb: "index + block \<le> length data" using br less.prems(2) by simp
    have step: "consecutive_frames (\<lambda>k. 0) data frame remaining index s sent
                = consecutive_frames (\<lambda>k. 0) data f1 (remaining - block)
                    ((index + block) mod 256) ((s + 1) AND 0x0F) (sent @ [f1])"
      using False inb
      by (simp add: consecutive_frames.simps [of _ data frame remaining index s sent]
          can_send_frame_def block_def f1_def Let_def)
    have pl: "frame_payload f1 = take block (drop index data)"
      unfolding f1_def using less.prems(1) b7 inb by (intro cf_payload) simp_all
    have l1: "length (can_data f1) = 8"
      using less.prems(1) b7 inb by (simp add: f1_def memcpy_at_length)
    show ?thesis
    proof (cases "remaining > 7")
      case True
      then have blk: "block = 7" by (simp add: block_def)
      have lt: "index + 7 < length data" using True less.prems(2) by simp
      have m: "(index + 7) mod 7 = 6" using less.prems(4) by simp
      have small: "index + 7 < 256" using lt less.prems(3) m by presburger
      have "\<exists>fs. consecutive_frames (\<lambda>k. 0) data f1 (remaining - 7) (index + 7)
                    ((s + 1) AND 0x0F) (sent @ [f1]) = Inr (0, (sent @ [f1]) @ fs) \<and>
              concat (map frame_payload fs) = drop (index + 7) data"
        using True less.prems l1 m by (intro less.IH) simp_all
      then obtain fs where fs: "consecutive_frames (\<lambda>k. 0) data f1 (remaining - 7) (index + 7)
                    ((s + 1) AND 0x0F) (sent @ [f1]) = Inr (0, (sent @ [f1]) @ fs)"
          and cc: "concat (map frame_payload fs) = drop (index + 7) data" by blast
      have "take 7 (drop index data) @ drop (index + 7) data = drop index data"
        by (metis add.commute append_take_drop_id drop_drop)
      then have "concat (map frame_payload (f1 # fs)) = drop index data"
        using pl cc blk by simp
      moreover have "consecutive_frames (\<lambda>k. 0) data frame remaining index s sent
                       = Inr (0, sent @ (f1 # fs))"
        using step fs blk small by simp
      ultimately show ?thesis by blast
    next
      case False
      then have blk: "block = remaining" by (simp add: block_def)
      have "length (drop index data) = remaining" using less.prems(2) by simp
      then have "take remaining (drop index data) = drop index data" by simp
      then have "concat (map frame_payload [f1]) = drop index data"
        using pl blk by simp
      moreover have "consecutive_frames (\<lambda>k. 0) data frame remaining index s sent
                       = Inr (0, sent @ [f1])"
        using step blk by (simp add: consecutive_frames_done)
      ultimately show ?thesis by blast
    qed
  qed
qed


lemma iso_tp_roundtrip_short:
  assumes "length (can_data frame0) = 8" and "length P \<le> 258"
  shows "\<exists>frames. can_iso_tp_send (\<lambda>k. 0) ident P frame0 = Inr (0, frames) \<and>
                  reassemble frames = P"
proof (cases "length P \<le> 7")
  case True
  define frame where "frame = frame0\<lparr>can_id := ident,
                                is_extended := (if ident > 0x7FF then 1 else 0),
                                is_remote := 0\<rparr>"
  define f1 where "f1 = frame\<lparr>dlc := of_nat (length P + 1),
                        can_data := memcpy_at ((can_data frame)[0 := of_nat (length P)]) 1 P (length P)\<rparr>"
  have l8: "length (can_data frame) = 8" using assms(1) by (simp add: frame_def)
  have r: "can_iso_tp_send (\<lambda>k. 0) ident P frame0 = Inr (0, [f1])"
    using True
    by (simp add: can_iso_tp_send_def ISO_TP_MAX_LENGTH_def can_send_frame_def Let_def
        f1_def frame_def)
  have f: "can_data f1 ! 0 = of_nat (length P)"
    using l8 by (simp add: f1_def memcpy_at_first)
  have c: "take (length P) (drop 1 (can_data f1)) = take (length P) P"
    unfolding f1_def using l8 by (simp add: memcpy_at_copied)
  have d: "unat (dlc f1) = length P + 1"
    using dlc_unat [OF True] by (simp add: f1_def)
  have "frame_payload f1 = P"
    using f c d pci_sf [OF True] by (simp add: frame_payload_def)
  with r show ?thesis by (simp add: reassemble_def)
next
  case False
  define frame where "frame = frame0\<lparr>can_id := ident,
                                is_extended := (if ident > 0x7FF then 1 else 0),
                                is_remote := 0\<rparr>"
  define f1 where "f1 = frame\<lparr>dlc := 8,
                        can_data := memcpy_at
                          ((can_data frame)[0 := 0x10 OR (of_nat (length P div 256) AND 0x0F),
                                            1 := of_nat (length P)])
                          2 P 6\<rparr>"
  have l8: "length (can_data frame) = 8" using assms(1) by (simp add: frame_def)
  have len6: "6 \<le> length P" using False by simp
  have r: "can_iso_tp_send (\<lambda>k. 0) ident P frame0
           = consecutive_frames (\<lambda>k. 0) P f1 (length P - 6) 6 1 [f1]"
    using False assms(2)
    by (simp add: can_iso_tp_send_def ISO_TP_MAX_LENGTH_def can_send_frame_def Let_def
        f1_def frame_def)
  have f: "can_data f1 ! 0 = 0x10 OR (of_nat (length P div 256) AND 0x0F)"
    using l8 by (simp add: f1_def memcpy_at_first)
  have c: "take 6 (drop 2 (can_data f1)) = take 6 P"
    unfolding f1_def using l8 len6 by (simp add: memcpy_at_copied)
  have p1: "frame_payload f1 = take 6 P"
    using f c by (simp add: frame_payload_def pci_ff)
  have l1: "length (can_data f1) = 8"
    using l8 len6 by (simp add: f1_def memcpy_at_length)
  have "\<exists>fs. consecutive_frames (\<lambda>k. 0) P f1 (length P - 6) 6 1 [f1] = Inr (0, [f1] @ fs) \<and>
              concat (map frame_payload fs) = drop 6 P"
    using l1 len6 assms(2) by (intro consecutive_frames_ok) simp_all
  then obtain fs where fs: "consecutive_frames (\<lambda>k. 0) P f1 (length P - 6) 6 1 [f1] = Inr (0, [f1] @ fs)"
    and cc: "concat (map frame_payload fs) = drop 6 P" by blast
  have "reassemble ([f1] @ fs) = P"
    using p1 cc by (simp add: reassemble_def)
  with r fs show ?thesis by auto
qed

text \<open>
  Claim C1. The claim asks that the payload bytes of the emitted frames, put together,
  give back the payload, for every length up to 4095. Up to 258 bytes they do
  (\<open>iso_tp_roundtrip_short\<close>). For the 259-byte payload of 258 zero bytes followed by
  01, every write succeeding, \<open>can_iso_tp_send\<close> returns 0 after 38 frames with
  sequence numbers cycling 1..15, 0, 1.., but the last frame carries byte 2 of the
  payload instead of byte 258: the \<open>uint8_t\<close> \<open>index\<close> has wrapped from 251 + 7 to 2.
\<close>

theorem iso_tp_index_wraps:
  "(case can_iso_tp_send (\<lambda>k. 0) 0x7E0 (replicate 258 0 @ [1])
           \<lparr>can_id = 0, dlc = 0, can_data = replicate 8 0, is_extended = 0, is_remote = 0\<rparr> of
      Inl f \<Rightarrow> False
    | Inr (rc, frames) \<Rightarrow>
        rc = 0 \<and> length frames = 38 \<and>
        reassemble frames = replicate 259 0 \<and>
        reassemble frames \<noteq> replicate 258 0 @ [1] \<and>
        sequence_numbers frames =
          [1, 2, 3, 4, 5, 6, 7, 8, 9, 10, 11, 12, 13, 14, 15, 0,
           1, 2, 3, 4, 5, 6, 7, 8, 9, 10, 11, 12, 13, 14, 15, 0, 1, 2, 3, 4, 5])"
  by code_simp

end
